theory Spec2Isabelle
  imports Complex_Main "HOL-Library.AList" "HOL-Library.Log_Nat"
begin

section \<open>JavaScript values\<close>

text \<open>
  The handler of \<open>api/affinity-ev.js\<close> works on untyped data: the webhook payload and the
  bodies of the remote API's replies are JSON. A number is a binary double: a finite value,
  given by the rational it denotes, NaN or an infinity. The negative zero is identified
  with zero: the program never divides by a zero, compares zeros with \<open>===\<close> and
  \<open>>\<close>, which do not tell the two apart, and prints both as \<open>0\<close>. The theorems hold
  for every rational in \<open>Fin\<close>, the doubles among them.
\<close>

datatype jsnum = Fin rat | NaN | PosInf | NegInf

subsection \<open>Double precision arithmetic\<close>

text \<open>
  An arithmetic operation on doubles gives the exact result rounded to the nearest double,
  a tie going to the even significand (IEEE 754, round to nearest even). \<open>ilog2 a\<close> is
  the binary exponent of a positive rational, the floor of its binary logarithm. A double
  has a significand of 53 bits and an exponent of at least \<open>-1022\<close> (below it the numbers
  are subnormal, with the spacing \<open>2 powi -1074\<close>); a rounded magnitude of
  \<open>2 powi 1024\<close> or more is an infinity.
\<close>

definition ilog2 :: "rat \<Rightarrow> int" where
  "ilog2 a =
     (let (n, d) = quotient_of a; k = bitlen n - bitlen d
      in if 2 powi k \<le> a then k else k - 1)"

definition round_even :: "rat \<Rightarrow> int" where
  "round_even q =
     (let f = \<lfloor>q\<rfloor>; r = q - of_int f
      in if r < 1 / 2 then f else if 1 / 2 < r then f + 1 else if even f then f else f + 1)"

definition round_double :: "rat \<Rightarrow> jsnum" where
  "round_double x =
     (if x = 0 then Fin 0
      else
        let e = max (ilog2 \<bar>x\<bar>) (- 1022);
            u = 2 powi (e - 52);
            y = of_int (round_even (\<bar>x\<bar> / u)) * u
        in if 2 powi 1024 \<le> y then (if 0 < x then PosInf else NegInf)
           else Fin (if 0 < x then y else - y))"

text \<open>The operators \<open>+\<close>, \<open>*\<close> and \<open>/\<close> on numbers.\<close>

fun num_add :: "jsnum \<Rightarrow> jsnum \<Rightarrow> jsnum" where
  "num_add (Fin x) (Fin y) = round_double (x + y)"
| "num_add NaN b = NaN"
| "num_add a NaN = NaN"
| "num_add PosInf NegInf = NaN"
| "num_add NegInf PosInf = NaN"
| "num_add PosInf b = PosInf"
| "num_add NegInf b = NegInf"
| "num_add a PosInf = PosInf"
| "num_add a NegInf = NegInf"

fun num_mul :: "jsnum \<Rightarrow> jsnum \<Rightarrow> jsnum" where
  "num_mul (Fin x) (Fin y) = round_double (x * y)"
| "num_mul NaN b = NaN"
| "num_mul a NaN = NaN"
| "num_mul (Fin x) PosInf = (if x = 0 then NaN else if 0 < x then PosInf else NegInf)"
| "num_mul (Fin x) NegInf = (if x = 0 then NaN else if 0 < x then NegInf else PosInf)"
| "num_mul PosInf (Fin y) = (if y = 0 then NaN else if 0 < y then PosInf else NegInf)"
| "num_mul NegInf (Fin y) = (if y = 0 then NaN else if 0 < y then NegInf else PosInf)"
| "num_mul PosInf PosInf = PosInf"
| "num_mul PosInf NegInf = NegInf"
| "num_mul NegInf PosInf = NegInf"
| "num_mul NegInf NegInf = PosInf"

fun num_div :: "jsnum \<Rightarrow> jsnum \<Rightarrow> jsnum" where
  "num_div (Fin x) (Fin y) =
     (if y = 0 then (if x = 0 then NaN else if 0 < x then PosInf else NegInf)
      else round_double (x / y))"
| "num_div NaN b = NaN"
| "num_div a NaN = NaN"
| "num_div (Fin x) PosInf = Fin 0"
| "num_div (Fin x) NegInf = Fin 0"
| "num_div PosInf (Fin y) = (if 0 \<le> y then PosInf else NegInf)"
| "num_div NegInf (Fin y) = (if 0 \<le> y then NegInf else PosInf)"
| "num_div PosInf b = NaN"
| "num_div NegInf b = NaN"

datatype jsval =
    JUndefined
  | JNull
  | JBool bool
  | JNum jsnum
  | JStr string
  | JArr "jsval list"
  | JObj "(string \<times> jsval) list"

text \<open>
  A thrown value: the \<open>catch\<close> block of the handler reads \<open>e.message\<close> and
  \<open>e.response\<close> (status and data), which only the HTTP client's errors carry.
\<close>

datatype exn = Error (message: string) (response: "(int \<times> jsval) option")

definition TypeError :: "string \<Rightarrow> exn" where
  "TypeError msg = Error msg None"

definition bindE :: "exn + 'a \<Rightarrow> ('a \<Rightarrow> exn + 'b) \<Rightarrow> exn + 'b" where
  "bindE m f = (case m of Inl e \<Rightarrow> Inl e | Inr v \<Rightarrow> f v)"

definition int_val :: "int \<Rightarrow> jsval" where
  "int_val n = JNum (Fin (of_int n))"

definition nullish :: "jsval \<Rightarrow> bool" where
  "nullish v = (v = JUndefined \<or> v = JNull)"

definition truthy :: "jsval \<Rightarrow> bool" where
  "truthy v =
     (case v of
        JUndefined \<Rightarrow> False
      | JNull \<Rightarrow> False
      | JBool b \<Rightarrow> b
      | JNum n \<Rightarrow> n \<noteq> Fin 0 \<and> n \<noteq> NaN
      | JStr s \<Rightarrow> s \<noteq> []
      | JArr xs \<Rightarrow> True
      | JObj kvs \<Rightarrow> True)"

text \<open>\<open>a ?? b\<close>: the left operand unless it is null or undefined.\<close>

definition coalesce :: "jsval \<Rightarrow> jsval \<Rightarrow> jsval" where
  "coalesce a b = (if nullish a then b else a)"

text \<open>
  \<open>o.k\<close> for the member names the handler reads (\<open>body\<close>, \<open>data\<close>,
  \<open>list_entry_id\<close>, \<open>listEntryId\<close>, \<open>field\<close>, \<open>list_id\<close>, \<open>id\<close>,
  \<open>value\<close>): a TypeError on null and undefined, the member of an object, and undefined on
  every other value, whose prototypes define none of these names. A later duplicate of a
  key does not occur in an object; the first entry of a key is the member.
\<close>

definition get :: "jsval \<Rightarrow> string \<Rightarrow> exn + jsval" where
  "get v k =
     (case v of
        JUndefined \<Rightarrow>
          Inl (TypeError (''Cannot read properties of undefined (reading '' @ [CHR 0x27] @ k
                          @ [CHR 0x27] @ '')''))
      | JNull \<Rightarrow>
          Inl (TypeError (''Cannot read properties of null (reading '' @ [CHR 0x27] @ k
                          @ [CHR 0x27] @ '')''))
      | JObj kvs \<Rightarrow> Inr (case map_of kvs k of None \<Rightarrow> JUndefined | Some x \<Rightarrow> x)
      | _ \<Rightarrow> Inr JUndefined)"

text \<open>\<open>o?.k\<close>: undefined when \<open>o\<close> is null or undefined, and never a throw.\<close>

definition opt_get :: "jsval \<Rightarrow> string \<Rightarrow> jsval" where
  "opt_get v k =
     (case v of
        JObj kvs \<Rightarrow> (case map_of kvs k of None \<Rightarrow> JUndefined | Some x \<Rightarrow> x)
      | _ \<Rightarrow> JUndefined)"

subsection \<open>Numbers to strings\<close>

definition digit_char :: "nat \<Rightarrow> char" where
  "digit_char d = ''0123456789'' ! (d mod 10)"

function digits10 :: "nat \<Rightarrow> string" where
  "digits10 n = (if n < 10 then [digit_char n] else digits10 (n div 10) @ [digit_char (n mod 10)])"
  by pat_completeness auto
termination
  by (relation "measure (\<lambda>n. n)") auto

declare digits10.simps [simp del]

fun frac_digits :: "nat \<Rightarrow> rat \<Rightarrow> string" where
  "frac_digits 0 f = []"
| "frac_digits (Suc k) f =
     (if f = 0 then []
      else let d = nat \<lfloor>f * 10\<rfloor> in digit_char d # frac_digits k (f * 10 - of_nat d))"

text \<open>
  \<open>Number.prototype.toString\<close>. An integer prints as its decimal digits, which is what
  JavaScript prints below \<open>10^21\<close>; another number prints its integer part, a point and
  its decimal fraction (cut after 20 digits), which is what JavaScript prints for a decimal
  of at most 15 significant digits that is at least \<open>10^-6\<close>.
\<close>

definition show_rat :: "rat \<Rightarrow> string" where
  "show_rat r =
     (let a = \<bar>r\<bar>; ip = \<lfloor>a\<rfloor>; fr = a - of_int ip
      in (if r < 0 then ''-'' else []) @ digits10 (nat ip)
         @ (if fr = 0 then [] else CHR ''.'' # frac_digits 20 fr))"

definition num_to_string :: "jsnum \<Rightarrow> string" where
  "num_to_string n =
     (case n of
        Fin r \<Rightarrow> show_rat r
      | NaN \<Rightarrow> ''NaN''
      | PosInf \<Rightarrow> ''Infinity''
      | NegInf \<Rightarrow> ''-Infinity'')"

subsection \<open>\<open>String(x)\<close>\<close>

fun join_comma :: "(exn + string) list \<Rightarrow> exn + string" where
  "join_comma [] = Inr []"
| "join_comma [x] = x"
| "join_comma (x # y # ys) =
     (case x of
        Inl e \<Rightarrow> Inl e
      | Inr s \<Rightarrow> (case join_comma (y # ys) of Inl e \<Rightarrow> Inl e | Inr t \<Rightarrow> Inr (s @ '','' @ t)))"

text \<open>
  The conversion of a value to a string. An array joins the strings of its elements with
  commas, null and undefined elements giving the empty string. An object gives
  \<open>[object Object]\<close> through \<open>Object.prototype.toString\<close>, unless it has a member of its
  own named \<open>toString\<close>: a member parsed from JSON is never callable, neither \<open>toString\<close>
  nor \<open>valueOf\<close> then yields a primitive, and the conversion throws a TypeError.
\<close>

fun String_js :: "jsval \<Rightarrow> exn + string" where
  "String_js JUndefined = Inr ''undefined''"
| "String_js JNull = Inr ''null''"
| "String_js (JBool b) = Inr (if b then ''true'' else ''false'')"
| "String_js (JNum n) = Inr (num_to_string n)"
| "String_js (JStr s) = Inr s"
| "String_js (JArr xs) =
     join_comma (map (\<lambda>x. if x = JUndefined \<or> x = JNull then Inr [] else String_js x) xs)"
| "String_js (JObj kvs) =
     (if map_of kvs ''toString'' = None then Inr ''[object Object]''
      else Inl (Error ''Cannot convert object to primitive value'' None))"

subsection \<open>\<open>Number(x)\<close>\<close>

definition is_ws :: "char \<Rightarrow> bool" where
  "is_ws c = (c \<in> set [CHR 0x09, CHR 0x0A, CHR 0x0B, CHR 0x0C, CHR 0x0D, CHR 0x20, CHR 0xA0])"

definition trim :: "string \<Rightarrow> string" where
  "trim s = rev (dropWhile is_ws (rev (dropWhile is_ws s)))"

definition digit_value :: "char \<Rightarrow> nat option" where
  "digit_value c =
     map_of [(CHR ''0'', 0), (CHR ''1'', 1), (CHR ''2'', 2), (CHR ''3'', 3), (CHR ''4'', 4),
             (CHR ''5'', 5), (CHR ''6'', 6), (CHR ''7'', 7), (CHR ''8'', 8), (CHR ''9'', 9),
             (CHR ''a'', 10), (CHR ''b'', 11), (CHR ''c'', 12), (CHR ''d'', 13), (CHR ''e'', 14),
             (CHR ''f'', 15), (CHR ''A'', 10), (CHR ''B'', 11), (CHR ''C'', 12), (CHR ''D'', 13),
             (CHR ''E'', 14), (CHR ''F'', 15)] c"

definition is_digit :: "nat \<Rightarrow> char \<Rightarrow> bool" where
  "is_digit base c = (case digit_value c of None \<Rightarrow> False | Some d \<Rightarrow> d < base)"

definition digits_value :: "nat \<Rightarrow> string \<Rightarrow> nat" where
  "digits_value base s = foldl (\<lambda>acc c. acc * base + (case digit_value c of None \<Rightarrow> 0 | Some d \<Rightarrow> d)) 0 s"

definition pow10 :: "int \<Rightarrow> rat" where
  "pow10 k = (if 0 \<le> k then 10 ^ nat k else 1 / 10 ^ nat (- k))"

definition all_digits :: "nat \<Rightarrow> string \<Rightarrow> bool" where
  "all_digits base s = (s \<noteq> [] \<and> list_all (is_digit base) s)"

text \<open>The exponent part of a decimal literal: nothing, or \<open>e\<close>, a sign and digits.\<close>

definition exponent_part :: "string \<Rightarrow> int option" where
  "exponent_part s =
     (case s of
        [] \<Rightarrow> Some 0
      | c # t \<Rightarrow>
          if c = CHR ''e'' \<or> c = CHR ''E'' then
            (case t of
               [] \<Rightarrow> None
             | d # u \<Rightarrow>
                 if d = CHR ''+'' then (if all_digits 10 u then Some (int (digits_value 10 u)) else None)
                 else if d = CHR ''-'' then (if all_digits 10 u then Some (- int (digits_value 10 u)) else None)
                 else (if all_digits 10 t then Some (int (digits_value 10 t)) else None))
          else None)"

definition unsigned_decimal :: "string \<Rightarrow> jsnum" where
  "unsigned_decimal s =
     (if s = ''Infinity'' then PosInf
      else
        let ip = takeWhile (is_digit 10) s;
            r1 = dropWhile (is_digit 10) s;
            fp = (case r1 of [] \<Rightarrow> [] | c # t \<Rightarrow> if c = CHR ''.'' then takeWhile (is_digit 10) t else []);
            r2 = (case r1 of [] \<Rightarrow> [] | c # t \<Rightarrow> if c = CHR ''.'' then dropWhile (is_digit 10) t else r1)
        in if ip = [] \<and> fp = [] then NaN
           else (case exponent_part r2 of
                   None \<Rightarrow> NaN
                 | Some e \<Rightarrow>
                     round_double (of_nat (digits_value 10 (ip @ fp)) * pow10 (e - int (length fp)))))"

definition negate :: "jsnum \<Rightarrow> jsnum" where
  "negate n = (case n of Fin r \<Rightarrow> Fin (- r) | NaN \<Rightarrow> NaN | PosInf \<Rightarrow> NegInf | NegInf \<Rightarrow> PosInf)"

definition radix_literal :: "string \<Rightarrow> jsnum option" where
  "radix_literal s =
     (case s of
        a # b # t \<Rightarrow>
          if a = CHR ''0'' \<and> (b = CHR ''x'' \<or> b = CHR ''X'') then
            Some (if all_digits 16 t then round_double (of_nat (digits_value 16 t)) else NaN)
          else if a = CHR ''0'' \<and> (b = CHR ''o'' \<or> b = CHR ''O'') then
            Some (if all_digits 8 t then round_double (of_nat (digits_value 8 t)) else NaN)
          else if a = CHR ''0'' \<and> (b = CHR ''b'' \<or> b = CHR ''B'') then
            Some (if all_digits 2 t then round_double (of_nat (digits_value 2 t)) else NaN)
          else None
      | _ \<Rightarrow> None)"

text \<open>
  The conversion of a string to a number: surrounding white space is dropped (a character
  of the model is a code unit below 256, so the white space is the ASCII one and the
  no-break space; the other Unicode spaces cannot occur), the empty string is 0, and the rest is a hexadecimal, octal or binary integer literal or a signed
  decimal literal, whose value is rounded to the nearest double; anything else is NaN.
\<close>

definition StringToNumber :: "string \<Rightarrow> jsnum" where
  "StringToNumber s0 =
     (let s = trim s0
      in if s = [] then Fin 0
         else (case radix_literal s of
                 Some n \<Rightarrow> n
               | None \<Rightarrow>
                   (case s of
                      [] \<Rightarrow> NaN
                    | c # t \<Rightarrow>
                        if c = CHR ''+'' then unsigned_decimal t
                        else if c = CHR ''-'' then negate (unsigned_decimal t)
                        else unsigned_decimal s)))"

text \<open>
  \<open>Number(x)\<close>. An array or an object is first converted to a primitive, which for the
  plain data of a JSON document is the string that \<open>String(x)\<close> gives.
\<close>

definition Number_js :: "jsval \<Rightarrow> exn + jsnum" where
  "Number_js v =
     (case v of
        JUndefined \<Rightarrow> Inr NaN
      | JNull \<Rightarrow> Inr (Fin 0)
      | JBool b \<Rightarrow> Inr (Fin (if b then 1 else 0))
      | JNum n \<Rightarrow> Inr n
      | JStr s \<Rightarrow> Inr (StringToNumber s)
      | JArr xs \<Rightarrow> bindE (String_js (JArr xs)) (\<lambda>s. Inr (StringToNumber s))
      | JObj kvs \<Rightarrow> bindE (String_js (JObj kvs)) (\<lambda>s. Inr (StringToNumber s)))"

section \<open>The computation of the expected value\<close>

definition LIST_ID :: int where "LIST_ID = 300305"
definition FID_MIN :: string where "FID_MIN = ''field-5140816''"
definition FID_MAX :: string where "FID_MAX = ''field-5140817''"
definition FID_P :: string where "FID_P = ''field-5150465''"
definition FID_EV :: string where "FID_EV = ''field-5305096''"
definition ZERO_AS_MISSING :: bool where "ZERO_AS_MISSING = True"

text \<open>
  \<open>safeNum\<close>: the number a value converts to when that is finite, and null (\<open>None\<close>)
  otherwise. \<open>Number(null)\<close> is 0, so null is not mapped to null.
\<close>

definition isFinite :: "jsnum \<Rightarrow> bool" where
  "isFinite n = (case n of Fin r \<Rightarrow> True | _ \<Rightarrow> False)"

definition safeNum :: "jsval \<Rightarrow> exn + rat option" where
  "safeNum x = bindE (Number_js x) (\<lambda>n. Inr (case n of Fin r \<Rightarrow> Some r | _ \<Rightarrow> None))"

definition num_or_null :: "rat option \<Rightarrow> jsval" where
  "num_or_null x = (case x of None \<Rightarrow> JNull | Some r \<Rightarrow> JNum (Fin r))"

text \<open>
  \<open>Math.round\<close>: the nearest integer, a tie going to the greater one; NaN and the
  infinities are returned as they are. The result is exact: a double of magnitude
  \<open>2 powi 52\<close> or more is an integer already.
\<close>

fun Math_round :: "jsnum \<Rightarrow> jsnum" where
  "Math_round (Fin x) = Fin (of_int \<lfloor>x + 1 / 2\<rfloor>)"
| "Math_round n = n"

text \<open>
  \<open>computeEV(min, max, pPct)\<close>. The two conditional assignments of the zero-as-missing
  rule run in the source's order, the second reading the \<open>mi\<close> that the first may have
  set to null (\<open>null > 0\<close> is false). The midpoint is the average when neither bound is
  null, and \<open>mi ?? ma ?? 0\<close> otherwise.
\<close>

definition computeEV :: "jsval \<Rightarrow> jsval \<Rightarrow> jsval \<Rightarrow> exn + jsnum" where
  "computeEV mn mx pPct =
     bindE (safeNum mn) (\<lambda>mi0.
     bindE (safeNum mx) (\<lambda>ma0.
       let mi = (if ZERO_AS_MISSING \<and> mi0 = Some 0 \<and> (case ma0 of None \<Rightarrow> False | Some b \<Rightarrow> b > 0)
                 then None else mi0);
           ma = (if ZERO_AS_MISSING \<and> ma0 = Some 0 \<and> (case mi of None \<Rightarrow> False | Some a \<Rightarrow> a > 0)
                 then None else ma0);
           m = (case (mi, ma) of
                  (Some a, Some b) \<Rightarrow> num_div (num_add (Fin a) (Fin b)) (Fin 2)
                | _ \<Rightarrow> (case mi of
                         Some a \<Rightarrow> Fin a
                       | None \<Rightarrow> (case ma of Some b \<Rightarrow> Fin b | None \<Rightarrow> Fin 0)))
       in bindE (safeNum pPct) (\<lambda>p0.
            let p = num_div (Fin (max 0 (min 100 (case p0 of None \<Rightarrow> 0 | Some v \<Rightarrow> v)))) (Fin 100)
            in Inr (Math_round (num_mul m p)))))"

section \<open>The HTTP client\<close>

text \<open>
  The handler talks to the remote API through the client \<open>V2\<close>. What the remote side
  does with one outbound call is an \<open>exchange\<close>: a reply with an HTTP status and a parsed
  body, or no reply at all (a network failure or the 30 second timeout).
\<close>

datatype exchange = Replied int jsval | NoReply string

datatype axios_response = Response (status: int) (data: jsval)

text \<open>
  The client library is a dependency, not code of the repository. Its contract for a
  completed exchange is modelled here: the promise resolves with the response when the
  status is absent, when the configuration has no \<open>validateStatus\<close>, or when
  \<open>validateStatus\<close> accepts the status; otherwise it rejects with an error that
  carries the response. An exchange without a reply rejects with an error that carries none.
\<close>

definition settle :: "(int \<Rightarrow> bool) option \<Rightarrow> exchange \<Rightarrow> exn + axios_response" where
  "settle validateStatus x =
     (case x of
        NoReply msg \<Rightarrow> Inl (Error msg None)
      | Replied st d \<Rightarrow>
          if st = 0 \<or> (case validateStatus of None \<Rightarrow> True | Some ok \<Rightarrow> ok st)
          then Inr (Response st d)
          else Inl (Error (''Request failed with status code '' @ show_rat (of_int st)) (Some (st, d))))"

text \<open>
  \<open>V2 = axios.create({baseURL, headers, timeout})\<close> sets no \<open>validateStatus\<close>, so the
  instance keeps the library's default, which accepts the statuses 200 to 299.
\<close>

definition V2_validateStatus :: "(int \<Rightarrow> bool) option" where
  "V2_validateStatus = Some (\<lambda>st. 200 \<le> st \<and> st < 300)"

definition V2_request :: "exchange \<Rightarrow> exn + axios_response" where
  "V2_request x = settle V2_validateStatus x"

section \<open>The webhook handler\<close>

text \<open>
  What an invocation depends on besides the request: the environment variable with the
  credential, the platform's \<open>JSON.parse\<close> (\<open>None\<close> when it throws) and
  \<open>URLSearchParams\<close> (the decoded key/value pairs), and the outcome of the \<open>k\<close>-th
  outbound call of the invocation (call 0 is the first read, call 1 the write, calls 2 to
  5 the verifying reads).
\<close>

record world =
  AFFINITY_V2_TOKEN :: "string option"
  JSON_parse :: "string \<Rightarrow> jsval option"
  URLSearchParams :: "string \<Rightarrow> (string \<times> string) list"
  upstream :: "nat \<Rightarrow> exchange"

text \<open>
  The request: the \<open>content-type\<close> header, \<open>req.body\<close> as the platform left it (a
  value, or a byte buffer), and what reading the raw stream to its end gives (the data, or
  the error the stream emits).
\<close>

datatype req_body = Parsed jsval | Buffer string

record request =
  content_type :: "string option"
  body :: req_body
  stream :: "exn + string"

datatype reply = Reply (code: int) (json: jsval)

text \<open>The observable effects of an invocation, in order.\<close>

datatype event = GET string | POST string jsval | Sleep nat

definition coerceObj :: "(string \<Rightarrow> jsval option) \<Rightarrow> jsval \<Rightarrow> jsval" where
  "coerceObj parse x =
     (case x of
        JStr s \<Rightarrow> (case parse s of None \<Rightarrow> JObj [] | Some v \<Rightarrow> v)
      | _ \<Rightarrow> if truthy x then x else JObj [])"

definition lower_char :: "char \<Rightarrow> char" where
  "lower_char c =
     (case map_of (zip ''ABCDEFGHIJKLMNOPQRSTUVWXYZ'' ''abcdefghijklmnopqrstuvwxyz'') c of
        None \<Rightarrow> c
      | Some d \<Rightarrow> d)"

fun starts_with :: "string \<Rightarrow> string \<Rightarrow> bool" where
  "starts_with s [] = True"
| "starts_with [] (c # cs) = False"
| "starts_with (d # ds) (c # cs) = (d = c \<and> starts_with ds cs)"

fun includes_js :: "string \<Rightarrow> string \<Rightarrow> bool" where
  "includes_js [] sub = (sub = [])"
| "includes_js (c # cs) sub = (starts_with (c # cs) sub \<or> includes_js cs sub)"

text \<open>\<open>String(req.headers?.["content-type"] || "").toLowerCase().includes(...)\<close>\<close>

definition form_encoded :: "string option \<Rightarrow> bool" where
  "form_encoded h =
     includes_js (map lower_char (case h of None \<Rightarrow> [] | Some s \<Rightarrow> s))
       ''application/x-www-form-urlencoded''"

text \<open>\<open>Object.fromEntries\<close>: a later pair of a key replaces the value of an earlier one.\<close>

definition fromEntries :: "(string \<times> string) list \<Rightarrow> jsval" where
  "fromEntries es = JObj (foldl (\<lambda>acc (k, v). AList.update k (JStr v) acc) [] es)"

definition decode_text :: "world \<Rightarrow> request \<Rightarrow> string \<Rightarrow> jsval" where
  "decode_text w rq s =
     (if form_encoded (content_type rq) then fromEntries (URLSearchParams w s)
      else coerceObj (JSON_parse w) (JStr s))"

text \<open>The body parsing of the handler (lines 57 to 81): the value of \<open>outer\<close>.\<close>

definition read_outer :: "world \<Rightarrow> request \<Rightarrow> exn + jsval" where
  "read_outer w rq =
     (case body rq of
        Buffer s \<Rightarrow> Inr (decode_text w rq s)
      | Parsed v \<Rightarrow>
          if \<not> nullish v \<and> v \<noteq> JStr [] then
            (case v of
               JStr s \<Rightarrow> Inr (coerceObj (JSON_parse w) v)
             | JArr xs \<Rightarrow> Inr v
             | JObj kvs \<Rightarrow> Inr v
             | _ \<Rightarrow> Inr (JObj []))
          else bindE (stream rq) (\<lambda>raw. Inr (decode_text w rq raw)))"

text \<open>
  Whether \<open>Object.keys(x).length\<close> is non-zero: \<open>Object.keys\<close> throws on null and
  undefined, lists the members of an object and the indices of an array or a string, and
  is empty on a number or a boolean.
\<close>

definition has_keys :: "jsval \<Rightarrow> exn + bool" where
  "has_keys x =
     (case x of
        JUndefined \<Rightarrow> Inl (TypeError ''Cannot convert undefined or null to object'')
      | JNull \<Rightarrow> Inl (TypeError ''Cannot convert undefined or null to object'')
      | JBool b \<Rightarrow> Inr False
      | JNum n \<Rightarrow> Inr False
      | JStr s \<Rightarrow> Inr (s \<noteq> [])
      | JArr xs \<Rightarrow> Inr (xs \<noteq> [])
      | JObj kvs \<Rightarrow> Inr (kvs \<noteq> []))"

text \<open>The envelope unwrapping (lines 84 to 88): the value of \<open>payload\<close>.\<close>

definition unwrap :: "world \<Rightarrow> jsval \<Rightarrow> exn + jsval" where
  "unwrap w outer =
     bindE (get outer ''body'') (\<lambda>b.
     bindE (get outer ''data'') (\<lambda>d.
       let bodyCandidate = coerceObj (JSON_parse w) b;
           dataCandidate = coerceObj (JSON_parse w) d
       in bindE (has_keys bodyCandidate) (\<lambda>hb.
            if hb then Inr bodyCandidate
            else bindE (has_keys dataCandidate) (\<lambda>hd.
                   Inr (if hd then dataCandidate else outer)))))"

text \<open>Lines 90 to 95: the value of \<open>listEntryId\<close>.\<close>

definition listEntryId_of :: "jsval \<Rightarrow> exn + string" where
  "listEntryId_of payload =
     bindE (get payload ''list_entry_id'') (\<lambda>a.
     bindE (if nullish a then get payload ''listEntryId'' else Inr a) (\<lambda>b.
       String_js
         (coalesce (coalesce b (opt_get (opt_get payload ''data'') ''list_entry_id'')) (JStr []))))"

text \<open>Line 96: the value of \<open>eventListId\<close>.\<close>

definition list_id_candidate :: "jsval \<Rightarrow> jsval \<Rightarrow> jsval" where
  "list_id_candidate payload outer =
     coalesce
       (coalesce
          (coalesce (opt_get (opt_get payload ''field'') ''list_id'') (opt_get payload ''list_id''))
          (opt_get (opt_get outer ''field'') ''list_id''))
       (int_val LIST_ID)"

definition eventListId_of :: "jsval \<Rightarrow> jsval \<Rightarrow> exn + jsnum" where
  "eventListId_of payload outer = Number_js (list_id_candidate payload outer)"

definition payload_normalizer :: "world \<Rightarrow> request \<Rightarrow> exn + (jsval \<times> string \<times> jsnum)" where
  "payload_normalizer w rq =
     bindE (read_outer w rq) (\<lambda>outer.
     bindE (unwrap w outer) (\<lambda>payload.
     bindE (listEntryId_of payload) (\<lambda>listEntryId.
     bindE (eventListId_of payload outer) (\<lambda>eventListId.
       Inr (payload, listEntryId, eventListId)))))"

subsection \<open>Reading the fields of an entry\<close>

text \<open>\<open>f => [String(f.id), f.value?.data]\<close>\<close>

definition field_entry :: "jsval \<Rightarrow> exn + (string \<times> jsval)" where
  "field_entry f =
     bindE (get f ''id'') (\<lambda>i.
     bindE (String_js i) (\<lambda>k.
     bindE (get f ''value'') (\<lambda>v.
       Inr (k, opt_get v ''data''))))"

fun map_entries :: "jsval list \<Rightarrow> exn + (string \<times> jsval) list" where
  "map_entries [] = Inr []"
| "map_entries (f # fs) =
     bindE (field_entry f) (\<lambda>e. bindE (map_entries fs) (\<lambda>es. Inr (e # es)))"

text \<open>
  \<open>(resp?.data ?? []).map(...)\<close>: the entries of the \<open>Map\<close>, and a TypeError when the
  \<open>data\<close> member is not an array.
\<close>

definition field_entries :: "jsval \<Rightarrow> exn + (string \<times> jsval) list" where
  "field_entries resp =
     (case coalesce (opt_get resp ''data'') (JArr []) of
        JArr fs \<Rightarrow> map_entries fs
      | _ \<Rightarrow> Inl (TypeError ''(intermediate value).map is not a function''))"

text \<open>\<open>new Map(entries).get(k)\<close>: the last entry of a key is the one the map holds.\<close>

definition map_get :: "(string \<times> jsval) list \<Rightarrow> string \<Rightarrow> jsval" where
  "map_get entries k = (case map_of (rev entries) k of None \<Rightarrow> JUndefined | Some v \<Rightarrow> v)"

definition fields_path :: "string \<Rightarrow> string" where
  "fields_path listEntryId =
     ''/lists/'' @ show_rat (of_int LIST_ID) @ ''/list-entries/'' @ listEntryId @ ''/fields''"

definition ev_path :: "string \<Rightarrow> string" where
  "ev_path listEntryId = fields_path listEntryId @ ''/'' @ FID_EV"

text \<open>Lines 102 to 107: the first read and the computation.\<close>

definition read_and_compute ::
  "world \<Rightarrow> exn + (rat option \<times> rat option \<times> rat option \<times> jsnum)" where
  "read_and_compute w =
     bindE (V2_request (upstream w 0)) (\<lambda>r.
     bindE (field_entries (data r)) (\<lambda>fieldMap.
     bindE (safeNum (map_get fieldMap FID_MIN)) (\<lambda>mn.
     bindE (safeNum (map_get fieldMap FID_MAX)) (\<lambda>mx.
     bindE (safeNum (map_get fieldMap FID_P)) (\<lambda>p.
     bindE (computeEV (num_or_null mn) (num_or_null mx) (num_or_null p)) (\<lambda>ev.
       Inr (mn, mx, p, ev)))))))"

subsection \<open>Verifying the write\<close>

text \<open>One verifying read (lines 121 and 122): the new value of \<open>persisted\<close>.\<close>

definition verify_read :: "world \<Rightarrow> nat \<Rightarrow> exn + rat option" where
  "verify_read w i =
     bindE (V2_request (upstream w (2 + i))) (\<lambda>after.
     bindE (field_entries (data after)) (\<lambda>m.
       safeNum (map_get m FID_EV)))"

text \<open>
  The loop \<open>for (let i = 0; i < 4; i++)\<close> of lines 119 to 125, from the iteration \<open>i\<close>
  on, with the current value of \<open>persisted\<close>. It sleeps after every read of null, also
  after the last one.
\<close>

function verify_loop ::
  "world \<Rightarrow> string \<Rightarrow> nat \<Rightarrow> rat option \<Rightarrow> (exn + rat option) \<times> event list" where
  "verify_loop w listEntryId i persisted =
     (if i < 4 then
        (case verify_read w i of
           Inl e \<Rightarrow> (Inl e, [GET (fields_path listEntryId)])
         | Inr persisted' \<Rightarrow>
             if persisted' \<noteq> None then (Inr persisted', [GET (fields_path listEntryId)])
             else apsnd (\<lambda>t. GET (fields_path listEntryId) # Sleep (200 * 2 ^ i) # t)
                    (verify_loop w listEntryId (i + 1) persisted'))
      else (Inr persisted, []))"
  by pat_completeness auto
termination
  by (relation "measure (\<lambda>(w, listEntryId, i, persisted). 4 - i)") auto

declare verify_loop.simps [simp del]

subsection \<open>The handler\<close>

definition ev_body :: "jsnum \<Rightarrow> jsval" where
  "ev_body ev = JObj [(''value'', JObj [(''type'', JStr ''number''), (''data'', JNum ev)])]"

definition post_ev_failure ::
  "axios_response \<Rightarrow> string \<Rightarrow> rat option \<Rightarrow> rat option \<Rightarrow> rat option \<Rightarrow> jsnum \<Rightarrow> jsval" where
  "post_ev_failure post listEntryId mn mx p ev =
     JObj [(''ok'', JBool False), (''step'', JStr ''post_ev''), (''status'', int_val (status post)),
           (''data'', data post), (''listEntryId'', JStr listEntryId), (''min'', num_or_null mn),
           (''max'', num_or_null mx), (''p'', num_or_null p), (''ev'', JNum ev)]"

definition success ::
  "string \<Rightarrow> rat option \<Rightarrow> rat option \<Rightarrow> rat option \<Rightarrow> jsnum \<Rightarrow> rat option \<Rightarrow> jsval" where
  "success listEntryId mn mx p ev persisted =
     JObj [(''ok'', JBool True), (''listEntryId'', JStr listEntryId), (''min'', num_or_null mn),
           (''max'', num_or_null mx), (''p'', num_or_null p), (''ev'', JNum ev),
           (''persisted'', num_or_null persisted)]"

text \<open>Lines 101 to 127, after the two filters.\<close>

definition sync :: "world \<Rightarrow> string \<Rightarrow> (exn + reply) \<times> event list" where
  "sync w listEntryId =
     (let rd = GET (fields_path listEntryId)
      in case read_and_compute w of
           Inl e \<Rightarrow> (Inl e, [rd])
         | Inr (mn, mx, p, ev) \<Rightarrow>
             (let wr = POST (ev_path listEntryId) (ev_body ev)
              in case V2_request (upstream w 1) of
                   Inl e \<Rightarrow> (Inl e, [rd, wr])
                 | Inr post \<Rightarrow>
                     if status post < 200 \<or> status post \<ge> 300 then
                       (Inr (Reply 200 (post_ev_failure post listEntryId mn mx p ev)), [rd, wr])
                     else
                       (case verify_loop w listEntryId 0 None of
                          (Inl e, t) \<Rightarrow> (Inl e, rd # wr # t)
                        | (Inr persisted, t) \<Rightarrow>
                            (Inr (Reply 200 (success listEntryId mn mx p ev persisted)),
                             rd # wr # t))))"

text \<open>\<open>!process.env.AFFINITY_V2_TOKEN\<close>: the variable is unset or empty.\<close>

definition token_missing :: "world \<Rightarrow> bool" where
  "token_missing w = (case AFFINITY_V2_TOKEN w of None \<Rightarrow> True | Some t \<Rightarrow> t = [])"

definition skipped_no_id :: "jsval \<Rightarrow> jsval" where
  "skipped_no_id payload =
     JObj [(''skipped'', JBool True), (''reason'', JStr ''no_list_entry_id''), (''payload'', payload)]"

definition skipped_different_list :: "jsnum \<Rightarrow> jsval" where
  "skipped_different_list eventListId =
     JObj [(''skipped'', JBool True), (''reason'', JStr ''different_list''),
           (''eventListId'', JNum eventListId)]"

text \<open>The body of the \<open>try\<close> block: a reply, or the exception that leaves the block.\<close>

definition handler_try :: "world \<Rightarrow> request \<Rightarrow> (exn + reply) \<times> event list" where
  "handler_try w rq =
     (if token_missing w then
        (Inr (Reply 500 (JObj [(''ok'', JBool False), (''error'', JStr ''Missing AFFINITY_V2_TOKEN'')])), [])
      else
        (case payload_normalizer w rq of
           Inl e \<Rightarrow> (Inl e, [])
         | Inr (payload, listEntryId, eventListId) \<Rightarrow>
             if listEntryId = [] then (Inr (Reply 200 (skipped_no_id payload)), [])
             else if eventListId \<noteq> Fin (of_int LIST_ID) then
               (Inr (Reply 200 (skipped_different_list eventListId)), [])
             else sync w listEntryId))"

text \<open>
  The \<open>catch\<close> block: \<open>e?.response?.status || 500\<close> and
  \<open>e?.response?.data || e.message\<close>.
\<close>

definition caught :: "exn \<Rightarrow> jsval" where
  "caught e =
     (let st = (case response e of None \<Rightarrow> 500 | Some (s, d) \<Rightarrow> if s \<noteq> 0 then s else 500);
          dt = (case response e of
                  None \<Rightarrow> JStr (message e)
                | Some (s, d) \<Rightarrow> if truthy d then d else JStr (message e))
      in JObj [(''ok'', JBool False), (''error'', JObj [(''status'', int_val st), (''data'', dt)])])"

definition handler :: "world \<Rightarrow> request \<Rightarrow> reply \<times> event list" where
  "handler w rq =
     (case handler_try w rq of
        (Inr r, t) \<Rightarrow> (r, t)
      | (Inl e, t) \<Rightarrow> (Reply 200 (caught e), t))"

section \<open>Reference definitions\<close>

text \<open>
  The rules of the expected-value computation as the specification words them, on the three
  coerced inputs (a finite number, or \<open>None\<close> for null): the zero-as-missing rule, the
  midpoint, the likelihood clamped to \<open>[0, 100]\<close> and divided by 100, and their product,
  with the arithmetic of doubles.
\<close>

definition spec_zero_as_missing :: "rat option \<Rightarrow> rat option \<Rightarrow> rat option \<times> rat option" where
  "spec_zero_as_missing a b =
     (if a = Some 0 \<and> (case b of None \<Rightarrow> False | Some y \<Rightarrow> 0 < y) then (None, b)
      else if b = Some 0 \<and> (case a of None \<Rightarrow> False | Some x \<Rightarrow> 0 < x) then (a, None)
      else (a, b))"

definition spec_midpoint :: "rat option \<times> rat option \<Rightarrow> jsnum" where
  "spec_midpoint mm =
     (case mm of
        (Some x, Some y) \<Rightarrow> num_div (num_add (Fin x) (Fin y)) (Fin 2)
      | (Some x, None) \<Rightarrow> Fin x
      | (None, Some y) \<Rightarrow> Fin y
      | (None, None) \<Rightarrow> Fin 0)"

definition spec_clamped :: "rat option \<Rightarrow> rat" where
  "spec_clamped c =
     (case c of
        None \<Rightarrow> 0
      | Some v \<Rightarrow> if v < 0 then 0 else if 100 < v then 100 else v)"

definition spec_likelihood :: "rat option \<Rightarrow> jsnum" where
  "spec_likelihood c = num_div (Fin (spec_clamped c)) (Fin 100)"

definition spec_product :: "rat option \<Rightarrow> rat option \<Rightarrow> rat option \<Rightarrow> jsnum" where
  "spec_product a b c = num_mul (spec_midpoint (spec_zero_as_missing a b)) (spec_likelihood c)"

text \<open>Rounding to the nearest integer with a tie going away from zero.\<close>

definition round_half_away :: "rat \<Rightarrow> int" where
  "round_half_away x = (if 0 \<le> x then \<lfloor>x + 1 / 2\<rfloor> else - \<lfloor>- x + 1 / 2\<rfloor>)"

text \<open>
  The identifier of the list entry as the specification words it: the candidates in order,
  and the first of them that is present (neither null nor undefined), or the empty string.
  \<open>first_nonempty\<close> is the other reading of "first non-empty", which also passes over an
  empty string.
\<close>

definition id_candidates :: "jsval \<Rightarrow> jsval list" where
  "id_candidates payload =
     [opt_get payload ''list_entry_id'', opt_get payload ''listEntryId'',
      opt_get (opt_get payload ''data'') ''list_entry_id'']"

definition first_present :: "jsval list \<Rightarrow> jsval" where
  "first_present cs = (case filter (\<lambda>c. \<not> nullish c) cs of [] \<Rightarrow> JStr [] | c # rest \<Rightarrow> c)"

definition first_nonempty :: "jsval list \<Rightarrow> jsval" where
  "first_nonempty cs =
     (case filter (\<lambda>c. \<not> nullish c \<and> c \<noteq> JStr []) cs of [] \<Rightarrow> JStr [] | c # rest \<Rightarrow> c)"

text \<open>
  The verifying reads of an invocation and the trace of \<open>n\<close> reads of null, each followed
  by its delay of \<open>200 \<times> 2^attempt\<close> milliseconds.
\<close>

definition is_read :: "event \<Rightarrow> bool" where
  "is_read e = (case e of GET u \<Rightarrow> True | POST u b \<Rightarrow> False | Sleep ms \<Rightarrow> False)"

definition backoff :: "string \<Rightarrow> nat \<Rightarrow> event list" where
  "backoff listEntryId n =
     concat (map (\<lambda>attempt. [GET (fields_path listEntryId), Sleep (200 * 2 ^ attempt)]) [0..<n])"

section \<open>Scenarios\<close>

text \<open>
  A request for the entry 42 of the target list, and remote sides that answer the first
  read with the three input fields or with no field at all, then accept or refuse the
  write, and show the written value at once, late, or never.
\<close>

definition json_request :: "jsval \<Rightarrow> request" where
  "json_request v = \<lparr>content_type = Some ''application/json'', body = Parsed v, stream = Inr []\<rparr>"

definition text_request :: "string \<Rightarrow> request" where
  "text_request s = \<lparr>content_type = Some ''text/plain'', body = Parsed (JStr s), stream = Inr []\<rparr>"

definition entry_request :: request where
  "entry_request = json_request (JObj [(''list_entry_id'', JStr ''42'')])"

definition list_id_request :: "jsval \<Rightarrow> request" where
  "list_id_request v = json_request (JObj [(''list_entry_id'', JStr ''42''), (''list_id'', v)])"

definition field :: "string \<Rightarrow> jsval \<Rightarrow> jsval" where
  "field fid v = JObj [(''id'', JStr fid), (''value'', JObj [(''data'', v)])]"

definition fields_reply :: "jsval list \<Rightarrow> exchange" where
  "fields_reply fs = Replied 200 (JObj [(''data'', JArr fs)])"

definition failing_world :: world where
  "failing_world =
     \<lparr>AFFINITY_V2_TOKEN = Some ''secret'',
      JSON_parse = (\<lambda>s. None),
      URLSearchParams = (\<lambda>s. []),
      upstream = (\<lambda>k. if k = 0 then fields_reply []
                       else if k = 1 then Replied 500 (JStr ''boom'')
                       else NoReply ''unreachable'')\<rparr>"

definition late_world :: world where
  "late_world =
     \<lparr>AFFINITY_V2_TOKEN = Some ''secret'',
      JSON_parse = (\<lambda>s. None),
      URLSearchParams = (\<lambda>s. []),
      upstream = (\<lambda>k. if k = 0 then
                         fields_reply [field FID_MIN (int_val 50000), field FID_MAX (int_val 150000),
                                       field FID_P (int_val 50)]
                       else if k = 1 then Replied 200 JNull
                       else if k = 2 then fields_reply []
                       else fields_reply [field FID_EV (int_val 50000)])\<rparr>"

definition never_world :: world where
  "never_world = late_world\<lparr>upstream := (\<lambda>k. if k < 2 then upstream late_world k else fields_reply [])\<rparr>"

definition no_token_world :: world where
  "no_token_world = late_world\<lparr>AFFINITY_V2_TOKEN := None\<rparr>"

text \<open>
  A remote side whose verifying reads show the written field with no value yet
  (\<open>{id, value: {data: null}}\<close>), and a platform whose \<open>JSON.parse\<close> is given the text
  \<open>null\<close>.
\<close>

definition stale_world :: world where
  "stale_world =
     late_world\<lparr>upstream := (\<lambda>k. if k < 2 then upstream late_world k
                                else fields_reply [field FID_EV JNull])\<rparr>"

definition null_parse_world :: world where
  "null_parse_world = late_world\<lparr>JSON_parse := (\<lambda>s. if s = ''null'' then Some JNull else None)\<rparr>"

section \<open>Properties of double precision arithmetic\<close>

lemma powi_less_iff: "(2::rat) powi a < 2 powi b \<longleftrightarrow> a < b"
proof
  assume "(2::rat) powi a < 2 powi b"
  show "a < b"
  proof (rule ccontr)
    assume "\<not> a < b"
    then have "b \<le> a" by simp
    then have "(2::rat) powi b \<le> 2 powi a"
      by (intro power_int_increasing) simp_all
    with \<open>(2::rat) powi a < 2 powi b\<close> show False by simp
  qed
next
  assume "a < b"
  then show "(2::rat) powi a < 2 powi b"
    by (intro power_int_strict_increasing) simp_all
qed

lemma powi_le_iff: "(2::rat) powi a \<le> 2 powi b \<longleftrightarrow> a \<le> b"
  using powi_less_iff [of b a] by (auto simp: not_less [symmetric])

lemma bitlen_powi_bounds:
  assumes "0 < n"
  shows "(2::rat) powi (bitlen n - 1) \<le> of_int n" and "of_int n < (2::rat) powi (bitlen n)"
proof -
  have b: "2 ^ nat (bitlen n - 1) \<le> n" "n < 2 ^ nat (bitlen n)"
    using bitlen_bounds [OF assms] by simp_all
  have p: "0 < bitlen n"
    using assms bitlen_nonneg [of n] bitlen_eq_zero_iff [of n] by (cases "bitlen n = 0") auto
  have "(2::rat) powi (bitlen n - 1) = 2 ^ nat (bitlen n - 1)"
    using p by (simp add: power_int_nonneg_exp)
  also have "\<dots> = of_int (2 ^ nat (bitlen n - 1))" by simp
  also have "\<dots> \<le> of_int n" using b(1) by (simp only: of_int_le_iff)
  finally show "(2::rat) powi (bitlen n - 1) \<le> of_int n" .
  have "(of_int n :: rat) < of_int (2 ^ nat (bitlen n))"
    using b(2) by (simp only: of_int_less_iff)
  also have "\<dots> = 2 powi (bitlen n)"
    using p by (simp add: power_int_nonneg_exp)
  finally show "of_int n < (2::rat) powi (bitlen n)" .
qed

lemma ilog2_bounds:
  assumes "0 < a"
  shows "2 powi (ilog2 a) \<le> a" and "a < 2 powi (ilog2 a + 1)"
proof -
  obtain n d where q: "quotient_of a = (n, d)" by (cases "quotient_of a")
  have d: "0 < d" using quotient_of_denom_pos [OF q] .
  have a: "a = of_int n / of_int d" using quotient_of_div [OF q] .
  have n: "0 < n" using assms d unfolding a by (simp add: zero_less_divide_iff)
  define k where "k = bitlen n - bitlen d"
  have up: "a < 2 powi (k + 1)"
  proof -
    have "a * of_int d = of_int n" using d unfolding a by simp
    also have "\<dots> < 2 powi (bitlen n)" using bitlen_powi_bounds(2) [OF n] .
    also have "\<dots> = 2 powi (k + 1) * 2 powi (bitlen d - 1)"
      by (simp add: k_def power_int_add [symmetric])
    also have "\<dots> \<le> 2 powi (k + 1) * of_int d"
      using bitlen_powi_bounds(1) [OF d] by (intro mult_left_mono) simp_all
    finally show ?thesis using d by simp
  qed
  have lo: "2 powi (k - 1) \<le> a"
  proof -
    have "(2::rat) powi (k - 1) * of_int d \<le> 2 powi (k - 1) * 2 powi (bitlen d)"
      using bitlen_powi_bounds(2) [OF d] by (intro mult_left_mono) simp_all
    also have "\<dots> = 2 powi (bitlen n - 1)"
      by (simp add: k_def power_int_add [symmetric])
    also have "\<dots> \<le> of_int n" using bitlen_powi_bounds(1) [OF n] .
    also have "\<dots> = a * of_int d" using d unfolding a by simp
    finally show ?thesis using d by simp
  qed
  have i: "ilog2 a = (if 2 powi k \<le> a then k else k - 1)"
    by (simp add: ilog2_def q k_def Let_def)
  show "2 powi (ilog2 a) \<le> a"
    using lo by (simp add: i)
  show "a < 2 powi (ilog2 a + 1)"
    using up by (simp add: i not_le)
qed

lemma ilog2_unique:
  assumes "2 powi e \<le> a" and "a < 2 powi (e + 1)"
  shows "ilog2 a = e"
proof -
  have "(0::rat) < 2 powi e" by simp
  then have pos: "0 < a"
    using assms(1) by (rule less_le_trans)
  have "2 powi (ilog2 a) < (2::rat) powi (e + 1)"
    using ilog2_bounds(1) [OF pos] assms(2) by simp
  then have 1: "ilog2 a < e + 1" by (simp add: powi_less_iff)
  have "2 powi e < (2::rat) powi (ilog2 a + 1)"
    using ilog2_bounds(2) [OF pos] assms(1) by simp
  then have 2: "e < ilog2 a + 1" by (simp add: powi_less_iff)
  from 1 2 show ?thesis by simp
qed

lemma round_even_of_int [simp]: "round_even (of_int n) = n"
  by (simp add: round_even_def)


lemma floor_rat_numeral [simp]:
  "\<lfloor>(numeral a :: rat) / numeral b\<rfloor> = numeral a div numeral b"
  "\<lfloor>- (numeral a :: rat) / numeral b\<rfloor> = - numeral a div numeral b"
  "\<lfloor>(1 :: rat) / numeral b\<rfloor> = 1 div numeral b"
  using floor_divide_of_int_eq [of "numeral a" "numeral b", where ?'a = rat]
    floor_divide_of_int_eq [of "- numeral a" "numeral b", where ?'a = rat]
    floor_divide_of_int_eq [of 1 "numeral b", where ?'a = rat]
  by simp_all

lemma round_double_normal:
  assumes "2 powi e \<le> \<bar>x\<bar>" and "\<bar>x\<bar> < 2 powi (e + 1)" and "- 1022 \<le> e"
  shows "round_double x =
           (let u = 2 powi (e - 52); y = of_int (round_even (\<bar>x\<bar> / u)) * u
            in if 2 powi 1024 \<le> y then (if 0 < x then PosInf else NegInf)
               else Fin (if 0 < x then y else - y))"
proof -
  have "(0::rat) < 2 powi e" by simp
  then have "0 < \<bar>x\<bar>" using assms(1) by (rule less_le_trans)
  then have x: "x \<noteq> 0" by simp
  have "ilog2 \<bar>x\<bar> = e" using assms(1,2) by (rule ilog2_unique)
  then have "max (ilog2 \<bar>x\<bar>) (- 1022) = e" using assms(3) by simp
  then show ?thesis using x by (simp add: round_double_def)
qed

lemma round_double_exact:
  assumes x: "x = of_int m * 2 powi k" and m: "\<bar>m\<bar> < 2 ^ 53" and k: "- 1074 \<le> k" "k \<le> 971"
  shows "round_double x = Fin x"
proof (cases "x = 0")
  case True
  then show ?thesis by (simp add: round_double_def)
next
  case False
  then have m0: "m \<noteq> 0" using x by auto
  define a where "a = \<bar>x\<bar>"
  have a: "a = of_int \<bar>m\<bar> * 2 powi k"
    by (simp add: a_def x abs_mult)
  have apos: "0 < a" using False by (simp add: a_def)
  define e where "e = max (ilog2 a) (- 1022)"
  have "(of_int \<bar>m\<bar> :: rat) < of_int (2 ^ 53)"
    using m by (simp only: of_int_less_iff)
  then have "(of_int \<bar>m\<bar> :: rat) < 2 powi 53" by simp
  then have "a < 2 powi 53 * 2 powi k"
    unfolding a by (intro mult_strict_right_mono) simp_all
  then have lt: "a < 2 powi (53 + k)"
    by (simp add: power_int_add)
  have "2 powi (ilog2 a) < (2::rat) powi (53 + k)"
    using ilog2_bounds(1) [OF apos] lt by simp
  then have "ilog2 a < 53 + k" by (simp add: powi_less_iff)
  then have j: "0 \<le> k - (e - 52)"
    using k(1) by (simp add: e_def)
  define N where "N = \<bar>m\<bar> * 2 ^ nat (k - (e - 52))"
  have "a / 2 powi (e - 52) = of_int \<bar>m\<bar> * (2 powi k / 2 powi (e - 52))"
    by (simp add: a)
  also have "2 powi k / (2::rat) powi (e - 52) = 2 powi (k - (e - 52))"
    by (simp add: power_int_diff)
  also have "\<dots> = 2 ^ nat (k - (e - 52))"
    using j by (simp add: power_int_nonneg_exp)
  finally have q: "a / 2 powi (e - 52) = of_int N"
    by (simp add: N_def)
  have u0: "(2::rat) powi (e - 52) \<noteq> 0" by simp
  have "a = of_int N * 2 powi (e - 52)"
    using q u0 by (simp add: field_simps)
  then have y: "of_int (round_even (a / 2 powi (e - 52))) * 2 powi (e - 52) = a"
    unfolding q round_even_of_int by simp
  have "(2::rat) powi (53 + k) \<le> 2 powi 1024"
    using k(2) by (simp only: powi_le_iff)
  then have nov: "\<not> 2 powi 1024 \<le> a"
    using lt by simp
  have "round_double x = Fin (if 0 < x then a else - a)"
    using False y nov by (simp add: round_double_def a_def [symmetric] e_def [symmetric] Let_def)
  then show ?thesis by (simp add: a_def)
qed

lemma round_double_int:
  assumes "\<bar>m\<bar> < 2 ^ 53"
  shows "round_double (of_int m) = Fin (of_int m)"
  using round_double_exact [of "of_int m" m 0] assms by simp


lemma round_double_dyadic:
  assumes "\<bar>m\<bar> < 2 ^ 53" and "k \<le> 1074"
  shows "round_double (of_int m / 2 ^ k) = Fin (of_int m / 2 ^ k)"
proof -
  have "of_int m / (2::rat) ^ k = of_int m * 2 powi (- int k)"
    by (simp add: power_int_minus field_simps)
  then show ?thesis
    using round_double_exact [of "of_int m / 2 ^ k" m "- int k"] assms by simp
qed

lemma round_double_numeral:
  "numeral n < (2::int) ^ 53 \<Longrightarrow> round_double (numeral n) = Fin (numeral n)"
  "numeral n < (2::int) ^ 53 \<Longrightarrow> round_double (- numeral n) = Fin (- numeral n)"
  using round_double_int [of "numeral n"] round_double_int [of "- numeral n"] by simp_all

lemma round_double_0 [simp]: "round_double 0 = Fin 0"
  by (simp add: round_double_def)

lemma round_double_1 [simp]: "round_double 1 = Fin 1"
  using round_double_int [of 1] by simp

lemma round_even_le:
  assumes "q \<le> of_int N"
  shows "round_even q \<le> N"
proof (cases "q = of_int N")
  case True
  then show ?thesis by simp
next
  case False
  then have "q < of_int N" using assms by simp
  then have "\<lfloor>q\<rfloor> < N" by (simp add: floor_less_iff)
  then show ?thesis by (auto simp: round_even_def Let_def)
qed

lemma round_even_nonneg:
  assumes "0 \<le> q"
  shows "0 \<le> round_even q"
proof -
  have "0 \<le> \<lfloor>q\<rfloor>" using assms by simp
  then show ?thesis by (auto simp: round_even_def Let_def)
qed

text \<open>A number below \<open>2 powi 1023\<close> in magnitude rounds to a finite double.\<close>

lemma round_double_finite:
  assumes "\<bar>x\<bar> < 2 powi 1023"
  shows "\<exists>y. round_double x = Fin y"
proof (cases "x = 0")
  case True
  then show ?thesis by simp
next
  case False
  define a where "a = \<bar>x\<bar>"
  have apos: "0 < a" using False by (simp add: a_def)
  define e where "e = max (ilog2 a) (- 1022)"
  define u where "u = (2::rat) powi (e - 52)"
  have upos: "0 < u" by (simp add: u_def)
  have "2 powi (ilog2 a) < (2::rat) powi 1023"
    using ilog2_bounds(1) [OF apos] assms by (simp add: a_def)
  then have "ilog2 a < 1023" by (simp only: powi_less_iff)
  then have e: "e \<le> 1022" by (simp add: e_def)
  have p: "(2::rat) powi (e + 1) = 2 powi 53 * u"
    using power_int_add [of "2::rat" 53 "e - 52"] by (simp add: u_def add.commute)
  have "a < 2 powi (ilog2 a + 1)" using ilog2_bounds(2) [OF apos] .
  also have "\<dots> \<le> 2 powi (e + 1)"
    by (simp only: powi_le_iff) (simp add: e_def)
  also have "\<dots> = 2 powi 53 * u"
    by (rule p)
  finally have "a / u < 2 powi 53"
    using upos by (simp add: field_simps)
  then have "a / u \<le> of_int (2 ^ 53)" by simp
  then have "round_even (a / u) \<le> 2 ^ 53" by (rule round_even_le)
  then have "(of_int (round_even (a / u)) :: rat) \<le> of_int (2 ^ 53)"
    by (simp only: of_int_le_iff)
  then have "of_int (round_even (a / u)) * u \<le> 2 powi 53 * u"
    using upos by (intro mult_right_mono) simp_all
  also have "\<dots> = 2 powi (e + 1)"
    by (rule p [symmetric])
  also have "\<dots> < 2 powi 1024"
    using e by (simp only: powi_less_iff)
  finally have "\<not> 2 powi 1024 \<le> of_int (round_even (a / u)) * u" by simp
  then show ?thesis
    using False
    by (simp add: round_double_def a_def [symmetric] e_def [symmetric] u_def [symmetric] Let_def)
qed

section \<open>Properties of the computation\<close>

lemma bindE_simps [simp]:
  "bindE (Inl e) f = Inl e"
  "bindE (Inr v) f = f v"
  by (simp_all add: bindE_def)

lemmas number_defs = StringToNumber_def trim_def is_ws_def radix_literal_def unsigned_decimal_def
  is_digit_def digit_value_def digits_value_def exponent_part_def pow10_def all_digits_def negate_def

lemma safeNum_string: "safeNum (JStr s) = Inr (case StringToNumber s of Fin r \<Rightarrow> Some r | _ \<Rightarrow> None)"
  by (simp add: safeNum_def Number_js_def)

lemma safeNum_simps [simp]:
  "safeNum JUndefined = Inr None"
  "safeNum JNull = Inr (Some 0)"
  "safeNum (JNum (Fin r)) = Inr (Some r)"
  "safeNum (int_val n) = Inr (Some (of_int n))"
  by (simp_all add: safeNum_def Number_js_def int_val_def)

lemma safeNum_num_or_null [simp]:
  "safeNum (num_or_null x) = Inr (Some (case x of None \<Rightarrow> 0 | Some r \<Rightarrow> r))"
  by (cases x) (simp_all add: num_or_null_def)

lemma code_midpoint:
  "(let mi = (if ZERO_AS_MISSING \<and> a = Some 0 \<and> (case b of None \<Rightarrow> False | Some y \<Rightarrow> y > 0)
              then None else a);
        ma = (if ZERO_AS_MISSING \<and> b = Some 0 \<and> (case mi of None \<Rightarrow> False | Some x \<Rightarrow> x > 0)
              then None else b)
    in (case (mi, ma) of
          (Some x, Some y) \<Rightarrow> num_div (num_add (Fin x) (Fin y)) (Fin 2)
        | _ \<Rightarrow> (case mi of
                 Some x \<Rightarrow> Fin x
               | None \<Rightarrow> (case ma of Some y \<Rightarrow> Fin y | None \<Rightarrow> Fin 0)))) =
     spec_midpoint (spec_zero_as_missing a b)"
  by (cases a; cases b)
    (auto simp: spec_midpoint_def spec_zero_as_missing_def ZERO_AS_MISSING_def Let_def)

lemma code_clamp:
  "max 0 (min 100 (case c of None \<Rightarrow> 0 | Some v \<Rightarrow> v)) = spec_clamped c"
  by (cases c) (auto simp: spec_clamped_def max_def min_def)

lemma computeEV_refines:
  assumes "safeNum mn = Inr a" and "safeNum mx = Inr b" and "safeNum pPct = Inr c"
  shows "computeEV mn mx pPct = Inr (Math_round (spec_product a b c))"
  using code_midpoint [of a b]
  by (simp add: computeEV_def assms Let_def spec_product_def spec_likelihood_def code_clamp)

lemma computeEV_throws:
  assumes "safeNum mn = Inr a" and "safeNum mx = Inr b" and "safeNum pPct = Inl e"
  shows "computeEV mn mx pPct = Inl e"
  by (simp add: computeEV_def assms Let_def)

lemma Math_round_bounds:
  "x - 1 / 2 < of_int \<lfloor>x + 1 / 2\<rfloor> \<and> of_int \<lfloor>x + 1 / 2\<rfloor> \<le> x + 1 / 2" for x :: rat
  by linarith

lemma Math_round_nonneg: "0 \<le> x \<Longrightarrow> \<lfloor>x + 1 / 2\<rfloor> = round_half_away x"
  by (simp add: round_half_away_def)

lemma Math_round_exact_int: "Math_round (Fin (of_int n)) = Fin (of_int n)"
proof -
  have "\<lfloor>rat_of_int n + 1 / 2\<rfloor> = n" by linarith
  then show ?thesis by simp
qed

lemma spec_clamped_range: "0 \<le> spec_clamped c" "spec_clamped c \<le> 100"
  by (cases c; simp add: spec_clamped_def)+

text \<open>The likelihood fraction is a finite number, and zero times it is zero.\<close>

lemma spec_likelihood_finite: "\<exists>f. spec_likelihood c = Fin f"
proof -
  have "\<bar>spec_clamped c / 100\<bar> \<le> 1"
    using spec_clamped_range [of c] by simp
  also have "(1::rat) < 2 powi 1023" by simp
  finally have "\<exists>f. round_double (spec_clamped c / 100) = Fin f"
    by (rule round_double_finite)
  then show ?thesis by (simp add: spec_likelihood_def)
qed

lemma zero_times_likelihood: "num_mul (Fin 0) (spec_likelihood c) = Fin 0"
  using spec_likelihood_finite [of c] by auto

lemma spec_product_zeros:
  "spec_product (Some 0) (Some 0) c = Fin 0"
  "spec_product None None c = Fin 0"
  by (simp_all add: spec_product_def spec_midpoint_def spec_zero_as_missing_def
      zero_times_likelihood)

lemmas spec_defs = spec_product_def spec_midpoint_def spec_zero_as_missing_def
  spec_likelihood_def spec_clamped_def

lemma computeEV_int:
  "computeEV (int_val x) (int_val y) (int_val z) =
     Inr (Math_round (spec_product (Some (of_int x)) (Some (of_int y)) (Some (of_int z))))"
  by (rule computeEV_refines) simp_all

text \<open>Roundings that are exact, for the evaluations below.\<close>

lemmas exact_half = round_double_dyadic [of 1 1, simplified]
lemmas exact_21_2 = round_double_dyadic [of 21 1, simplified]
lemmas exact_21_4 = round_double_dyadic [of 21 2, simplified]
lemmas exact_5_2 = round_double_dyadic [of 5 1, simplified]
lemmas exact_m5_2 = round_double_dyadic [of "- 5" 1, simplified]
lemmas exact_7_2 = round_double_dyadic [of 7 1, simplified]

lemmas exact_roundings = round_double_numeral exact_half exact_21_2 exact_21_4 exact_5_2
  exact_m5_2 exact_7_2

text \<open>
  Two evaluations where the rounding of doubles shows. The product \<open>25 \<times> 0.58\<close> is the
  double just below \<open>14.5\<close>, so \<open>computeEV(25, 25, 58)\<close> is 14, where the exact product
  \<open>14.5\<close> would round to 15. The sum of two bounds of \<open>2 powi 1023\<close> overflows, so their
  midpoint and the result are infinite, while a zero beside one such bound is dropped.
\<close>

lemma round_58_100: "round_double (58 / 100) = Fin (5224175567749775 / 2 ^ 53)"
  by (subst round_double_normal [where e = "- 1"]) (simp_all add: round_even_def Let_def)

lemma round_25_times_58: "round_double (25 * (5224175567749775 / 2 ^ 53)) = Fin (8162774324609023 / 2 ^ 49)"
  by (subst round_double_normal [where e = 3]) (simp_all add: round_even_def Let_def)

lemma computeEV_25_25_58: "computeEV (int_val 25) (int_val 25) (int_val 58) = Inr (Fin 14)"
proof -
  have l: "spec_likelihood (Some 58) = Fin (5224175567749775 / 2 ^ 53)"
    using round_58_100 by (simp add: spec_likelihood_def spec_clamped_def)
  have m: "spec_midpoint (spec_zero_as_missing (Some 25) (Some 25)) = Fin 25"
    by (simp add: spec_midpoint_def spec_zero_as_missing_def round_double_numeral)
  have "spec_product (Some 25) (Some 25) (Some 58) = Fin (8162774324609023 / 2 ^ 49)"
    using round_25_times_58 by (simp add: spec_product_def l m)
  then show ?thesis
    by (simp add: computeEV_int)
qed

lemma round_overflow: "round_double (2 ^ 1024) = PosInf"
  by (subst round_double_normal [where e = 1024]) (simp_all add: round_even_def Let_def)

lemma computeEV_overflow:
  "computeEV (JNum (Fin (2 ^ 1023))) (JNum (Fin (2 ^ 1023))) (int_val 50) = Inr PosInf"
  "computeEV (int_val 0) (JNum (Fin (2 ^ 1023))) (int_val 50) = Inr (Fin (2 ^ 1022))"
proof -
  have h: "spec_likelihood (Some 50) = Fin (1 / 2)"
    by (simp add: spec_likelihood_def spec_clamped_def exact_roundings)
  have "spec_midpoint (spec_zero_as_missing (Some (2 ^ 1023)) (Some (2 ^ 1023))) = PosInf"
    using round_overflow by (simp add: spec_midpoint_def spec_zero_as_missing_def)
  then show "computeEV (JNum (Fin (2 ^ 1023))) (JNum (Fin (2 ^ 1023))) (int_val 50) = Inr PosInf"
    by (simp add: computeEV_refines [of _ "Some (2 ^ 1023)" _ "Some (2 ^ 1023)" _ "Some 50"]
        spec_product_def h)
  have e: "round_double (2 ^ 1022) = Fin (2 ^ 1022)"
    using round_double_exact [of "2 ^ 1022" "2 ^ 52" 970] by simp
  have m: "spec_midpoint (spec_zero_as_missing (Some 0) (Some (2 ^ 1023))) = Fin (2 ^ 1023)"
    by (simp add: spec_midpoint_def spec_zero_as_missing_def)
  have t: "(2::rat) ^ 1023 * (1 / 2) = 2 ^ 1022"
    by simp
  have "spec_product (Some 0) (Some (2 ^ 1023)) (Some 50) = Fin (2 ^ 1022)"
    by (simp only: spec_product_def m h num_mul.simps t e)
  then have "Math_round (spec_product (Some 0) (Some (2 ^ 1023)) (Some 50)) = Fin (2 ^ 1022)"
    by (simp add: Math_round_exact_int [of "2 ^ 1022"])
  then show "computeEV (int_val 0) (JNum (Fin (2 ^ 1023))) (int_val 50) = Inr (Fin (2 ^ 1022))"
    using computeEV_refines [of "int_val 0" "Some 0" "JNum (Fin (2 ^ 1023))" "Some (2 ^ 1023)"
        "int_val 50" "Some 50"]
    by simp
qed

lemma computeEV_10_11_50: "computeEV (int_val 10) (int_val 11) (int_val 50) = Inr (Fin 5)"
proof -
  have "spec_product (Some 10) (Some 11) (Some 50) = Fin (21 / 4)"
    by (simp add: spec_defs exact_roundings)
  then show ?thesis by (simp add: computeEV_int)
qed

text \<open>
  Claim C2, as the code has it. For inputs that coerce without a throw and a finite
  product of midpoint and likelihood fraction (both computed on doubles), \<open>computeEV\<close>
  returns the integer nearest to the product, a tie going to the greater integer
  (\<open>Math.round\<close>); where the product is not negative this is the rounding with ties away
  from zero. A product that is not finite (the sum of the bounds overflowed) is returned as
  it is. In particular \<open>computeEV(10, 11, 50) = 5\<close>.
\<close>

theorem computeEV_rounds_half_up:
  "(safeNum mn = Inr a \<and> safeNum mx = Inr b \<and> safeNum pPct = Inr c
      \<and> spec_product a b c = Fin x \<longrightarrow>
      (\<exists>r. computeEV mn mx pPct = Inr (Fin (of_int r))
         \<and> x - 1 / 2 < of_int r \<and> of_int r \<le> x + 1 / 2
         \<and> (0 \<le> x \<longrightarrow> r = round_half_away x)))
   \<and> (safeNum mn = Inr a \<and> safeNum mx = Inr b \<and> safeNum pPct = Inr c
        \<and> \<not> isFinite (spec_product a b c) \<longrightarrow>
        computeEV mn mx pPct = Inr (spec_product a b c))
   \<and> computeEV (int_val 10) (int_val 11) (int_val 50) = Inr (Fin 5)"
proof (intro conjI impI)
  assume h: "safeNum mn = Inr a \<and> safeNum mx = Inr b \<and> safeNum pPct = Inr c
      \<and> spec_product a b c = Fin x"
  then have "computeEV mn mx pPct = Inr (Fin (of_int \<lfloor>x + 1 / 2\<rfloor>))"
    by (simp add: computeEV_refines)
  then show "\<exists>r. computeEV mn mx pPct = Inr (Fin (of_int r))
         \<and> x - 1 / 2 < of_int r \<and> of_int r \<le> x + 1 / 2
         \<and> (0 \<le> x \<longrightarrow> r = round_half_away x)"
    using Math_round_bounds [of x] Math_round_nonneg [of x] by blast
next
  assume h: "safeNum mn = Inr a \<and> safeNum mx = Inr b \<and> safeNum pPct = Inr c
        \<and> \<not> isFinite (spec_product a b c)"
  then have "Math_round (spec_product a b c) = spec_product a b c"
    by (cases "spec_product a b c") (simp_all add: isFinite_def)
  then show "computeEV mn mx pPct = Inr (spec_product a b c)"
    using h by (simp add: computeEV_refines)
next
  show "computeEV (int_val 10) (int_val 11) (int_val 50) = Inr (Fin 5)"
    by (rule computeEV_10_11_50)
qed

theorem computeEV_rounds_half_up_witness:
  "safeNum (int_val 5) = Inr (Some 5) \<and> safeNum (int_val 50) = Inr (Some 50)
   \<and> spec_product (Some 5) (Some 5) (Some 50) = Fin (5 / 2)
   \<and> computeEV (int_val 5) (int_val 5) (int_val 50) = Inr (Fin 3)"
proof -
  have x: "spec_product (Some 5) (Some 5) (Some 50) = Fin (5 / 2)"
    by (simp add: spec_defs exact_roundings)
  have s: "safeNum (int_val 5) = Inr (Some 5) \<and> safeNum (int_val 5) = Inr (Some 5)
     \<and> safeNum (int_val 50) = Inr (Some 50) \<and> spec_product (Some 5) (Some 5) (Some 50) = Fin (5 / 2)"
    using x by simp
  from computeEV_rounds_half_up [of "int_val 5" "Some 5" "int_val 5" "Some 5" "int_val 50" "Some 50"
      "5 / 2"] s
  obtain r where r: "computeEV (int_val 5) (int_val 5) (int_val 50) = Inr (Fin (of_int r))"
    and "(0::rat) \<le> 5 / 2 \<longrightarrow> r = round_half_away (5 / 2)"
    by blast
  then have "r = 3" by (simp add: round_half_away_def)
  with r x s show ?thesis by simp
qed

text \<open>
  On a negative tie the two roundings differ: \<open>computeEV(-5, -5, 50)\<close> is
  \<open>Math.round(-2.5) = -2\<close>, and rounding \<open>-2.5\<close> away from zero gives \<open>-3\<close>.
\<close>

theorem computeEV_ties_counterexample:
  "computeEV (int_val (- 5)) (int_val (- 5)) (int_val 50) = Inr (Fin (- 2))
   \<and> spec_product (Some (- 5)) (Some (- 5)) (Some 50) = Fin (- 5 / 2)
   \<and> round_half_away (- 5 / 2) = - 3"
proof -
  have x: "spec_product (Some (- 5)) (Some (- 5)) (Some 50) = Fin (- 5 / 2)"
    by (simp add: spec_defs exact_roundings)
  have "computeEV (int_val (- 5)) (int_val (- 5)) (int_val 50) = Inr (Fin (- 2))"
    using x by (simp add: computeEV_int)
  moreover have "round_half_away (- 5 / 2) = - 3"
    by (simp add: round_half_away_def)
  ultimately show ?thesis using x by simp
qed

text \<open>
  Claim C4. When one bound coerces to zero and the other to a strictly positive number,
  the zero is treated as missing: the result is the one for an absent bound in its place
  (\<open>undefined\<close>, which \<open>safeNum\<close> maps to null), and the midpoint is the positive bound
  itself, not its half. Two zeros are left alone. Hence
  \<open>computeEV(0, 100, 50) = computeEV(100, 100, 50) = 50\<close> and \<open>computeEV(0, 0, 50) = 0\<close>.
\<close>

theorem zero_bound_is_missing:
  "(safeNum z = Inr (Some 0) \<and> safeNum v = Inr (Some b) \<and> 0 < b \<longrightarrow>
      spec_zero_as_missing (Some 0) (Some b) = (None, Some b)
      \<and> spec_zero_as_missing (Some b) (Some 0) = (Some b, None)
      \<and> computeEV z v p = computeEV JUndefined v p
      \<and> computeEV v z p = computeEV v JUndefined p)
   \<and> (safeNum z = Inr (Some 0) \<and> safeNum v = Inr (Some b) \<and> 0 < b \<and> safeNum p = Inr c \<longrightarrow>
        computeEV z v p = Inr (Math_round (num_mul (Fin b) (spec_likelihood c)))
        \<and> computeEV v z p = Inr (Math_round (num_mul (Fin b) (spec_likelihood c))))
   \<and> spec_zero_as_missing (Some 0) (Some 0) = (Some 0, Some 0)
   \<and> computeEV (int_val 0) (int_val 100) (int_val 50) = Inr (Fin 50)
   \<and> computeEV (int_val 100) (int_val 100) (int_val 50) = Inr (Fin 50)
   \<and> computeEV (int_val 0) (int_val 0) (int_val 50) = Inr (Fin 0)"
proof -
  have m: "spec_product (Some 0) (Some y) k = num_mul (Fin y) (spec_likelihood k)"
    "spec_product (Some y) (Some 0) k = num_mul (Fin y) (spec_likelihood k)"
    "spec_product None (Some y) k = num_mul (Fin y) (spec_likelihood k)"
    "spec_product (Some y) None k = num_mul (Fin y) (spec_likelihood k)" if "0 < y" for y k
    using that by (auto simp: spec_product_def spec_zero_as_missing_def spec_midpoint_def)
  have u: "safeNum JUndefined = Inr None" by simp
  have general: "computeEV z v p = computeEV JUndefined v p \<and> computeEV v z p = computeEV v JUndefined p"
    if z: "safeNum z = Inr (Some 0)" and v: "safeNum v = Inr (Some b)" and b: "0 < b"
    by (cases "safeNum p")
      (simp_all add: computeEV_throws [OF z v] computeEV_throws [OF u v]
        computeEV_throws [OF v z] computeEV_throws [OF v u]
        computeEV_refines [OF z v] computeEV_refines [OF u v]
        computeEV_refines [OF v z] computeEV_refines [OF v u] m [OF b])
  have l: "spec_likelihood (Some 50) = Fin (1 / 2)"
    by (simp add: spec_likelihood_def spec_clamped_def exact_roundings)
  have c1: "computeEV (int_val 0) (int_val 100) (int_val 50) = Inr (Fin 50)"
    by (simp add: computeEV_int m l exact_roundings)
  have "spec_product (Some 100) (Some 100) (Some 50) = Fin 50"
    by (simp add: spec_product_def spec_midpoint_def spec_zero_as_missing_def l exact_roundings)
  then have c2: "computeEV (int_val 100) (int_val 100) (int_val 50) = Inr (Fin 50)"
    by (simp add: computeEV_int)
  have "spec_product (Some 0) (Some 0) (Some 50) = Fin 0"
    by (simp add: spec_product_def spec_midpoint_def spec_zero_as_missing_def l)
  then have c3: "computeEV (int_val 0) (int_val 0) (int_val 50) = Inr (Fin 0)"
    by (simp add: computeEV_int)
  show ?thesis
  proof (intro conjI impI)
    assume h: "safeNum z = Inr (Some 0) \<and> safeNum v = Inr (Some b) \<and> 0 < b"
    then show "spec_zero_as_missing (Some 0) (Some b) = (None, Some b)"
      by (simp add: spec_zero_as_missing_def)
    from h show "spec_zero_as_missing (Some b) (Some 0) = (Some b, None)"
      by (auto simp: spec_zero_as_missing_def)
    from h general show "computeEV z v p = computeEV JUndefined v p" by blast
    from h general show "computeEV v z p = computeEV v JUndefined p" by blast
  next
    assume h: "safeNum z = Inr (Some 0) \<and> safeNum v = Inr (Some b) \<and> 0 < b \<and> safeNum p = Inr c"
    then show "computeEV z v p = Inr (Math_round (num_mul (Fin b) (spec_likelihood c)))"
      by (simp add: computeEV_refines [of z "Some 0" v "Some b" p c] m)
    from h show "computeEV v z p = Inr (Math_round (num_mul (Fin b) (spec_likelihood c)))"
      by (simp add: computeEV_refines [of v "Some b" z "Some 0" p c] m)
  next
    show "spec_zero_as_missing (Some 0) (Some 0) = (Some 0, Some 0)"
      by (simp add: spec_zero_as_missing_def)
  qed (rule c1 c2 c3)+
qed

theorem zero_bound_is_missing_witness:
  "safeNum JNull = Inr (Some 0) \<and> safeNum (JStr ''100'') = Inr (Some 100) \<and> (0::rat) < 100
   \<and> computeEV JNull (JStr ''100'') (int_val 50) = computeEV JUndefined (JStr ''100'') (int_val 50)
   \<and> computeEV (JStr ''100'') JNull (int_val 50) = computeEV (JStr ''100'') JUndefined (int_val 50)"
proof -
  have s: "safeNum (JStr ''100'') = Inr (Some 100)"
    by (simp add: safeNum_string number_defs exact_roundings)
  have h: "safeNum JNull = Inr (Some 0) \<and> safeNum (JStr ''100'') = Inr (Some 100) \<and> (0::rat) < 100"
    using s by simp
  show ?thesis
    using zero_bound_is_missing [of JNull "JStr ''100''" 100 "int_val 50"] h by blast
qed

lemma clamp_clamped:
  "max 0 (min 100 (spec_clamped c)) = max 0 (min 100 (case c of None \<Rightarrow> 0 | Some v \<Rightarrow> v))"
  by (cases c) (auto simp: spec_clamped_def max_def min_def)

text \<open>
  Claim C5. The likelihood that \<open>computeEV\<close> uses is the input clamped to \<open>[0, 100]\<close>,
  with 0 for an input that is missing or not numeric, divided by 100: replacing the input by
  its clamped value does not change the result. Hence
  \<open>computeEV(100, 100, 150) = computeEV(100, 100, 100)\<close> and
  \<open>computeEV(100, 100, -20) = computeEV(100, 100, 0) = 0\<close>.
\<close>

theorem likelihood_clamped:
  "(safeNum p = Inr c \<longrightarrow>
      0 \<le> spec_clamped c \<and> spec_clamped c \<le> 100
      \<and> computeEV mn mx p = computeEV mn mx (JNum (Fin (spec_clamped c))))
   \<and> (safeNum mn = Inr a \<and> safeNum mx = Inr b \<and> safeNum p = Inr c \<longrightarrow>
        computeEV mn mx p =
          Inr (Math_round (num_mul (spec_midpoint (spec_zero_as_missing a b))
                             (num_div (Fin (spec_clamped c)) (Fin 100)))))
   \<and> spec_clamped None = 0 \<and> spec_clamped (Some 150) = 100 \<and> spec_clamped (Some (- 20)) = 0
   \<and> safeNum JUndefined = Inr None \<and> safeNum (JStr ''n/a'') = Inr None
   \<and> computeEV (int_val 100) (int_val 100) (int_val 150) =
       computeEV (int_val 100) (int_val 100) (int_val 100)
   \<and> computeEV (int_val 100) (int_val 100) (int_val (- 20)) =
       computeEV (int_val 100) (int_val 100) (int_val 0)
   \<and> computeEV (int_val 100) (int_val 100) (int_val 0) = Inr (Fin 0)"
proof -
  have m: "spec_midpoint (spec_zero_as_missing (Some 100) (Some 100)) = Fin 100"
    by (simp add: spec_midpoint_def spec_zero_as_missing_def exact_roundings)
  have l: "spec_likelihood (Some 150) = Fin 1" "spec_likelihood (Some 100) = Fin 1"
    "spec_likelihood (Some (- 20)) = Fin 0" "spec_likelihood (Some 0) = Fin 0"
    by (simp_all add: spec_likelihood_def spec_clamped_def)
  have c: "computeEV (int_val 100) (int_val 100) (int_val 150) = Inr (Fin 100)"
    "computeEV (int_val 100) (int_val 100) (int_val 100) = Inr (Fin 100)"
    "computeEV (int_val 100) (int_val 100) (int_val (- 20)) = Inr (Fin 0)"
    "computeEV (int_val 100) (int_val 100) (int_val 0) = Inr (Fin 0)"
    by (simp_all add: computeEV_int spec_product_def m l exact_roundings)
  show ?thesis
  proof (intro conjI impI)
    assume h: "safeNum p = Inr c"
    show "0 \<le> spec_clamped c" "spec_clamped c \<le> 100"
      by (rule spec_clamped_range)+
    show "computeEV mn mx p = computeEV mn mx (JNum (Fin (spec_clamped c)))"
      by (simp add: computeEV_def h clamp_clamped)
  next
    assume "safeNum mn = Inr a \<and> safeNum mx = Inr b \<and> safeNum p = Inr c"
    then show "computeEV mn mx p =
          Inr (Math_round (num_mul (spec_midpoint (spec_zero_as_missing a b))
                             (num_div (Fin (spec_clamped c)) (Fin 100))))"
      by (simp add: computeEV_refines spec_product_def spec_likelihood_def)
  next
    show "safeNum (JStr ''n/a'') = Inr None"
      by (simp add: safeNum_string number_defs)
  qed (simp_all add: c spec_clamped_def)
qed

theorem likelihood_clamped_witness:
  "safeNum (JStr ''250'') = Inr (Some 250) \<and> spec_clamped (Some 250) = 100
   \<and> computeEV (int_val 3) (int_val 4) (JStr ''250'') = computeEV (int_val 3) (int_val 4) (JNum (Fin 100))"
proof -
  have s: "safeNum (JStr ''250'') = Inr (Some 250)"
    by (simp add: safeNum_string number_defs exact_roundings)
  have c: "spec_clamped (Some 250) = 100"
    by (simp add: spec_clamped_def)
  show ?thesis
    using likelihood_clamped [of "JStr ''250''" "Some 250" "int_val 3" "int_val 4"] s c by simp
qed

text \<open>
  Claim C6. After the zero-as-missing rule, the midpoint is \<open>(min + max) / 2\<close> when both
  bounds are present, the present bound when exactly one is, and 0 when none is. For every
  likelihood that coerces without a throw, \<open>computeEV(null, null, p) = 0\<close> (null coerces
  to 0, so the midpoint is that of two zeros), and so is the result for two absent bounds.
\<close>

theorem midpoint_rule:
  "(safeNum mn = Inr a \<and> safeNum mx = Inr b \<and> safeNum p = Inr c
      \<and> spec_zero_as_missing a b = (mi, ma) \<longrightarrow>
      computeEV mn mx p =
        Inr (Math_round
          (num_mul
             (case (mi, ma) of
                (Some x, Some y) \<Rightarrow> num_div (num_add (Fin x) (Fin y)) (Fin 2)
              | (Some x, None) \<Rightarrow> Fin x
              | (None, Some y) \<Rightarrow> Fin y
              | (None, None) \<Rightarrow> Fin 0)
             (spec_likelihood c))))
   \<and> (safeNum p = Inr c \<longrightarrow>
        computeEV JNull JNull p = Inr (Fin 0) \<and> computeEV JUndefined JUndefined p = Inr (Fin 0))"
proof (intro conjI impI)
  assume "safeNum mn = Inr a \<and> safeNum mx = Inr b \<and> safeNum p = Inr c
      \<and> spec_zero_as_missing a b = (mi, ma)"
  then show "computeEV mn mx p =
        Inr (Math_round
          (num_mul
             (case (mi, ma) of
                (Some x, Some y) \<Rightarrow> num_div (num_add (Fin x) (Fin y)) (Fin 2)
              | (Some x, None) \<Rightarrow> Fin x
              | (None, Some y) \<Rightarrow> Fin y
              | (None, None) \<Rightarrow> Fin 0)
             (spec_likelihood c)))"
    by (simp add: computeEV_refines spec_product_def spec_midpoint_def)
next
  assume h: "safeNum p = Inr c"
  have "spec_product (Some 0) (Some 0) c = Fin 0"
    by (simp add: spec_product_def spec_midpoint_def spec_zero_as_missing_def zero_times_likelihood)
  then show "computeEV JNull JNull p = Inr (Fin 0)"
    by (simp add: computeEV_refines [OF _ _ h])
  have "spec_product None None c = Fin 0"
    by (simp add: spec_product_def spec_midpoint_def spec_zero_as_missing_def zero_times_likelihood)
  then show "computeEV JUndefined JUndefined p = Inr (Fin 0)"
    by (simp add: computeEV_refines [OF _ _ h])
qed

theorem midpoint_rule_witness:
  "safeNum (int_val 50000) = Inr (Some 50000) \<and> safeNum (int_val 150000) = Inr (Some 150000)
   \<and> safeNum (int_val 50) = Inr (Some 50)
   \<and> spec_zero_as_missing (Some 50000) (Some 150000) = (Some 50000, Some 150000)
   \<and> computeEV (int_val 50000) (int_val 150000) (int_val 50) = Inr (Fin 50000)
   \<and> computeEV JNull JNull (int_val 50) = Inr (Fin 0)"
proof -
  have z: "spec_zero_as_missing (Some 50000) (Some 150000) = (Some 50000, Some 150000)"
    by (simp add: spec_zero_as_missing_def)
  have l: "spec_likelihood (Some 50) = Fin (1 / 2)"
    by (simp add: spec_likelihood_def spec_clamped_def exact_roundings)
  show ?thesis
    using midpoint_rule [of "int_val 50000" "Some 50000" "int_val 150000" "Some 150000"
        "int_val 50" "Some 50" "Some 50000" "Some 150000"] z
    by (simp add: l exact_roundings)
qed

section \<open>Properties of the handler\<close>

subsection \<open>Paths and printed numbers\<close>

lemmas world_defs = failing_world_def late_world_def never_world_def no_token_world_def
  fields_reply_def field_def

lemma show_rat_of_int:
  "show_rat (of_int n) = (if n < 0 then ''-'' else []) @ digits10 (nat \<bar>n\<bar>)"
proof -
  have "\<bar>rat_of_int n\<bar> = of_int \<bar>n\<bar>" by simp
  then show ?thesis
    unfolding show_rat_def Let_def by (simp del: of_int_abs)
qed

lemma show_rat_numeral: "show_rat (numeral k) = digits10 (numeral k)"
  using show_rat_of_int [of "numeral k"] by simp

lemma fields_path_42: "fields_path ''42'' = ''/lists/300305/list-entries/42/fields''"
  by (simp add: fields_path_def show_rat_numeral LIST_ID_def digits10.simps digit_char_def)

lemma ev_path_42: "ev_path ''42'' = ''/lists/300305/list-entries/42/fields/field-5305096''"
  by (simp add: ev_path_def fields_path_42 FID_EV_def)

lemma Number_LIST_ID: "Number_js (int_val LIST_ID) = Inr (Fin (of_int LIST_ID))"
  by (simp add: Number_js_def int_val_def)


subsection \<open>The client\<close>

lemma V2_rejects:
  assumes "st \<noteq> 0" and "st < 200 \<or> 300 \<le> st"
  shows "V2_request (Replied st d) =
           Inl (Error (''Request failed with status code '' @ show_rat (of_int st)) (Some (st, d)))"
  using assms by (auto simp: V2_request_def settle_def V2_validateStatus_def)

lemma V2_resolved_status:
  assumes "V2_request x = Inr post"
  shows "status post = 0 \<or> (200 \<le> status post \<and> status post < 300)"
  using assms
  by (cases x) (auto simp: V2_request_def settle_def V2_validateStatus_def split: if_splits)

lemma V2_no_reply: "V2_request (NoReply msg) = Inl (Error msg None)"
  by (simp add: V2_request_def settle_def)

lemma settle_200: "V2_request (Replied 200 d) = Inr (Response 200 d)"
  by (simp add: V2_request_def settle_def V2_validateStatus_def)

subsection \<open>The status and the trace of a reply\<close>

lemma sync_code:
  assumes "sync w listEntryId = (Inr r, t)"
  shows "code r = 200"
  using assms
  by (auto simp: sync_def Let_def split: sum.splits prod.splits if_splits)

lemma handler_try_code:
  assumes "handler_try w rq = (Inr r, t)"
  shows "code r = (if token_missing w then 500 else 200)"
  using assms sync_code
  by (auto simp: handler_try_def split: sum.splits prod.splits if_splits)

lemma handler_trace: "snd (handler w rq) = snd (handler_try w rq)"
  by (simp add: handler_def split: prod.splits sum.splits)


lemma caught_shape:
  "\<exists>st d. caught e = JObj [(''ok'', JBool False), (''error'', JObj [(''status'', int_val st), (''data'', d)])]"
  unfolding caught_def Let_def by blast

lemma caught_no_response:
  "caught (Error msg None) =
     JObj [(''ok'', JBool False), (''error'', JObj [(''status'', int_val 500), (''data'', JStr msg)])]"
  by (simp add: caught_def)

lemma sync_first_read_fails:
  assumes "upstream w 0 = NoReply msg"
  shows "sync w listEntryId = (Inl (Error msg None), [GET (fields_path listEntryId)])"
  using assms by (simp add: sync_def read_and_compute_def V2_no_reply)

lemma sync_write_refused:
  assumes "read_and_compute w = Inr (mn, mx, p, ev)"
    and "upstream w 1 = Replied st d" and "st \<noteq> 0" and "st < 200 \<or> 300 \<le> st"
  shows "sync w listEntryId =
           (Inl (Error (''Request failed with status code '' @ show_rat (of_int st)) (Some (st, d))),
            [GET (fields_path listEntryId), POST (ev_path listEntryId) (ev_body ev)])"
  using assms(1,2) V2_rejects [OF assms(3,4), of d]
  by (simp add: sync_def Let_def)

lemma post_ev_branch_needs_no_status:
  assumes "V2_request x = Inr post" and "status post < 200 \<or> 300 \<le> status post"
  shows "status post = 0"
  using V2_resolved_status [OF assms(1)] assms(2) by auto

lemma sync_after_write:
  assumes "read_and_compute w = Inr (mn, mx, p, ev)"
    and "V2_request (upstream w 1) = Inr post"
    and "200 \<le> status post" and "status post < 300"
    and "verify_loop w listEntryId 0 None = (Inr persisted, t)"
  shows "sync w listEntryId =
           (Inr (Reply 200 (success listEntryId mn mx p ev persisted)),
            GET (fields_path listEntryId) # POST (ev_path listEntryId) (ev_body ev) # t)"
  using assms by (simp add: sync_def Let_def)

lemma skip_replies:
  "\<not> token_missing w \<and> payload_normalizer w rq = Inr (payload, listEntryId, eventListId) \<longrightarrow>
     (listEntryId = [] \<longrightarrow>
        handler w rq =
          (Reply 200 (JObj [(''skipped'', JBool True), (''reason'', JStr ''no_list_entry_id''),
                            (''payload'', payload)]), []))
     \<and> (listEntryId \<noteq> [] \<and> eventListId \<noteq> Fin (of_int LIST_ID) \<longrightarrow>
        handler w rq =
          (Reply 200 (JObj [(''skipped'', JBool True), (''reason'', JStr ''different_list''),
                            (''eventListId'', JNum eventListId)]), []))"
  by (simp add: handler_def handler_try_def skipped_no_id_def skipped_different_list_def)

subsection \<open>Normalising a parsed JSON body\<close>

lemma read_outer_object: "read_outer w (json_request (JObj kvs)) = Inr (JObj kvs)"
  by (simp add: read_outer_def json_request_def nullish_def)

lemma unwrap_plain:
  assumes "map_of kvs ''body'' = None" and "map_of kvs ''data'' = None"
  shows "unwrap w (JObj kvs) = Inr (JObj kvs)"
  using assms by (simp add: unwrap_def get_def coerceObj_def truthy_def has_keys_def)

lemma unwrap_envelope:
  assumes "kvs \<noteq> []"
  shows "unwrap w (JObj [(''type'', t), (''body'', JObj kvs)]) = Inr (JObj kvs)"
  using assms by (simp add: unwrap_def get_def coerceObj_def truthy_def has_keys_def)

lemma normalize_plain:
  assumes "map_of kvs ''body'' = None" and "map_of kvs ''data'' = None"
  shows "payload_normalizer w (json_request (JObj kvs)) =
           bindE (listEntryId_of (JObj kvs)) (\<lambda>listEntryId.
           bindE (eventListId_of (JObj kvs) (JObj kvs)) (\<lambda>eventListId.
             Inr (JObj kvs, listEntryId, eventListId)))"
  by (simp add: payload_normalizer_def read_outer_object unwrap_plain [OF assms])

lemma normalize_entry_request:
  "payload_normalizer w entry_request =
     Inr (JObj [(''list_entry_id'', JStr ''42'')], ''42'', Fin (of_int LIST_ID))"
  by (simp add: entry_request_def normalize_plain listEntryId_of_def get_def nullish_def
      coalesce_def eventListId_of_def list_id_candidate_def opt_get_def Number_LIST_ID)

lemma normalize_list_id_request:
  assumes "\<not> nullish v"
  shows "payload_normalizer w (list_id_request v) =
           bindE (Number_js v) (\<lambda>n.
             Inr (JObj [(''list_entry_id'', JStr ''42''), (''list_id'', v)], ''42'', n))"
  using assms
  by (simp add: list_id_request_def normalize_plain listEntryId_of_def get_def nullish_def
      coalesce_def eventListId_of_def list_id_candidate_def opt_get_def)

lemma normalize_ping:
  "payload_normalizer w (json_request (JObj [(''ping'', JBool True)])) =
     Inr (JObj [(''ping'', JBool True)], [], Fin (of_int LIST_ID))"
  by (simp add: normalize_plain listEntryId_of_def get_def nullish_def
      coalesce_def eventListId_of_def list_id_candidate_def opt_get_def Number_LIST_ID)

lemma normalize_other_list:
  "payload_normalizer w (list_id_request (int_val 7)) =
     Inr (JObj [(''list_entry_id'', JStr ''42''), (''list_id'', int_val 7)], ''42'', Fin 7)"
  by (simp add: normalize_list_id_request nullish_def int_val_def Number_js_def)

lemma normalize_field_list:
  "payload_normalizer w
     (json_request (JObj [(''list_entry_id'', JStr ''42''), (''field'', JObj [(''list_id'', int_val 999)])])) =
     Inr (JObj [(''list_entry_id'', JStr ''42''), (''field'', JObj [(''list_id'', int_val 999)])],
          ''42'', Fin 999)"
  by (simp add: normalize_plain listEntryId_of_def get_def nullish_def coalesce_def
      eventListId_of_def list_id_candidate_def opt_get_def int_val_def Number_js_def)

text \<open>
  The two skips from the request on: a body without an identifier, and a body with an
  identifier and the list id 999 in \<open>field.list_id\<close>.
\<close>

lemma skips_from_requests:
  assumes "\<not> token_missing w"
  shows "handler w (json_request (JObj [(''ping'', JBool True)])) =
           (Reply 200 (JObj [(''skipped'', JBool True), (''reason'', JStr ''no_list_entry_id''),
                             (''payload'', JObj [(''ping'', JBool True)])]), [])"
    and "handler w
           (json_request (JObj [(''list_entry_id'', JStr ''42''),
                                (''field'', JObj [(''list_id'', int_val 999)])])) =
           (Reply 200 (JObj [(''skipped'', JBool True), (''reason'', JStr ''different_list''),
                             (''eventListId'', JNum (Fin 999))]), [])"
  using assms
  by (simp_all add: handler_def handler_try_def normalize_ping normalize_field_list
      skipped_no_id_def skipped_different_list_def LIST_ID_def)

lemma listEntryId_first_present:
  assumes "\<not> nullish payload"
  shows "listEntryId_of payload = String_js (first_present (id_candidates payload))"
proof (cases payload)
  case (JObj kvs)
  then show ?thesis
    by (simp add: listEntryId_of_def get_def opt_get_def first_present_def id_candidates_def
        coalesce_def split: option.splits)
qed (use assms in \<open>simp_all add: listEntryId_of_def get_def opt_get_def first_present_def
       id_candidates_def coalesce_def nullish_def\<close>)

lemma handler_of_sync:
  assumes "\<not> token_missing w" and "sync w ''42'' = (Inr r, t)"
  shows "handler w entry_request = (r, t)"
  using assms
  by (simp add: handler_def handler_try_def normalize_entry_request)

subsection \<open>The verification loop\<close>

lemma verify_loop_done: "verify_loop w listEntryId 4 persisted = (Inr persisted, [])"
  by (simp add: verify_loop.simps)

lemma verify_loop_step:
  assumes "i < 4"
  shows "verify_loop w listEntryId i persisted =
           (case verify_read w i of
              Inl e \<Rightarrow> (Inl e, [GET (fields_path listEntryId)])
            | Inr (Some v) \<Rightarrow> (Inr (Some v), [GET (fields_path listEntryId)])
            | Inr None \<Rightarrow>
                apsnd (\<lambda>t. GET (fields_path listEntryId) # Sleep (200 * 2 ^ i) # t)
                  (verify_loop w listEntryId (i + 1) None))"
  using assms
  by (subst verify_loop.simps) (simp split: sum.splits option.splits)

lemma verify_loop_reads:
  "i \<le> 4 \<Longrightarrow> length (filter is_read (snd (verify_loop w listEntryId i persisted))) \<le> 4 - i"
proof (induction "4 - i" arbitrary: i persisted)
  case 0
  then have "i = 4" by simp
  then show ?case by (simp add: verify_loop_done)
next
  case (Suc n)
  then have i: "i < 4" and n: "n = 4 - (i + 1)" and le: "i + 1 \<le> 4"
    by simp_all
  have "length (filter is_read (snd (verify_loop w listEntryId (i + 1) None))) \<le> 4 - (i + 1)"
    using Suc.hyps(1) [OF n le] .
  then have ih: "Suc (length (filter is_read (snd (verify_loop w listEntryId (Suc i) None)))) \<le> 4 - i"
    using i by simp
  have one: "Suc 0 \<le> 4 - i"
    using i by simp
  show ?case
  proof (cases "verify_read w i")
    case (Inl e)
    then show ?thesis
      using one by (simp add: verify_loop_step [OF i] is_read_def)
  next
    case (Inr x)
    then show ?thesis
      using one ih by (cases x) (simp_all add: verify_loop_step [OF i] is_read_def)
  qed
qed

lemma verify_loop_found:
  assumes "i + n < 4" and "\<forall>k<n. verify_read w (i + k) = Inr None"
    and "verify_read w (i + n) = Inr (Some v)"
  shows "verify_loop w listEntryId i persisted =
           (Inr (Some v),
            concat (map (\<lambda>attempt. [GET (fields_path listEntryId), Sleep (200 * 2 ^ attempt)]) [i..<i + n])
            @ [GET (fields_path listEntryId)])"
  using assms
proof (induction n arbitrary: i persisted)
  case 0
  then show ?case by (simp add: verify_loop_step)
next
  case (Suc n)
  have i: "i < 4" using Suc.prems(1) by simp
  have r0: "verify_read w i = Inr None"
    using Suc.prems(2) [rule_format, of 0] by simp
  have ih: "verify_loop w listEntryId (i + 1) None =
         (Inr (Some v),
          concat (map (\<lambda>attempt. [GET (fields_path listEntryId), Sleep (200 * 2 ^ attempt)])
                   [i + 1..<i + 1 + n])
          @ [GET (fields_path listEntryId)])"
  proof (rule Suc.IH)
    show "i + 1 + n < 4" using Suc.prems(1) by simp
    show "\<forall>k<n. verify_read w (i + 1 + k) = Inr None"
      using Suc.prems(2) [rule_format, of "Suc k" for k] by simp
    show "verify_read w (i + 1 + n) = Inr (Some v)"
      using Suc.prems(3) by simp
  qed
  have u: "[i..<i + Suc n] = i # [i + 1..<i + 1 + n]"
    by (simp add: upt_rec)
  show ?case
    unfolding u using ih by (simp add: verify_loop_step [OF i] r0)
qed

lemma verify_loop_exhausted:
  assumes "i + n = 4" and "\<forall>k<n. verify_read w (i + k) = Inr None"
  shows "verify_loop w listEntryId i None =
           (Inr None,
            concat (map (\<lambda>attempt. [GET (fields_path listEntryId), Sleep (200 * 2 ^ attempt)]) [i..<i + n]))"
  using assms
proof (induction n arbitrary: i)
  case 0
  then show ?case by (simp add: verify_loop_done)
next
  case (Suc n)
  have i: "i < 4" using Suc.prems(1) by simp
  have r0: "verify_read w i = Inr None"
    using Suc.prems(2) [rule_format, of 0] by simp
  have ih: "verify_loop w listEntryId (i + 1) None =
         (Inr None,
          concat (map (\<lambda>attempt. [GET (fields_path listEntryId), Sleep (200 * 2 ^ attempt)])
                   [i + 1..<i + 1 + n]))"
  proof (rule Suc.IH)
    show "i + 1 + n = 4" using Suc.prems(1) by simp
    show "\<forall>k<n. verify_read w (i + 1 + k) = Inr None"
      using Suc.prems(2) [rule_format, of "Suc k" for k] by simp
  qed
  have u: "[i..<i + Suc n] = i # [i + 1..<i + 1 + n]"
    by (simp add: upt_rec)
  show ?case
    unfolding u using ih by (simp add: verify_loop_step [OF i] r0)
qed

lemma backoff_values:
  "backoff ''42'' (Suc 0) = [GET ''/lists/300305/list-entries/42/fields'', Sleep 200]"
  "backoff ''42'' 4 =
     [GET ''/lists/300305/list-entries/42/fields'', Sleep 200,
      GET ''/lists/300305/list-entries/42/fields'', Sleep 400,
      GET ''/lists/300305/list-entries/42/fields'', Sleep 800,
      GET ''/lists/300305/list-entries/42/fields'', Sleep 1600]"
  by (simp_all add: backoff_def fields_path_42 upt_rec)

lemma verification_behaviour:
  "length (filter is_read (snd (verify_loop w listEntryId 0 None))) \<le> 4
   \<and> (n < 4 \<and> (\<forall>k<n. verify_read w k = Inr None) \<and> verify_read w n = Inr (Some v) \<longrightarrow>
        verify_loop w listEntryId 0 None =
          (Inr (Some v), backoff listEntryId n @ [GET (fields_path listEntryId)]))
   \<and> ((\<forall>k<4. verify_read w k = Inr None) \<longrightarrow>
        verify_loop w listEntryId 0 None = (Inr None, backoff listEntryId 4))
   \<and> (read_and_compute w = Inr (mn, mx, p, ev) \<and> V2_request (upstream w 1) = Inr post
        \<and> 200 \<le> status post \<and> status post < 300
        \<and> verify_loop w listEntryId 0 None = (Inr persisted, t) \<longrightarrow>
        sync w listEntryId =
          (Inr (Reply 200
                  (JObj [(''ok'', JBool True), (''listEntryId'', JStr listEntryId),
                         (''min'', num_or_null mn), (''max'', num_or_null mx), (''p'', num_or_null p),
                         (''ev'', JNum ev), (''persisted'', num_or_null persisted)])),
           GET (fields_path listEntryId) # POST (ev_path listEntryId) (ev_body ev) # t))"
proof (intro conjI impI)
  show "length (filter is_read (snd (verify_loop w listEntryId 0 None))) \<le> 4"
    using verify_loop_reads [of 0 w listEntryId None] by simp
next
  assume "n < 4 \<and> (\<forall>k<n. verify_read w k = Inr None) \<and> verify_read w n = Inr (Some v)"
  then show "verify_loop w listEntryId 0 None =
          (Inr (Some v), backoff listEntryId n @ [GET (fields_path listEntryId)])"
    using verify_loop_found [of 0 n w v listEntryId None] by (simp add: backoff_def)
next
  assume "\<forall>k<4. verify_read w k = Inr None"
  then show "verify_loop w listEntryId 0 None = (Inr None, backoff listEntryId 4)"
    using verify_loop_exhausted [of 0 4 w listEntryId] by (simp add: backoff_def)
next
  assume "read_and_compute w = Inr (mn, mx, p, ev) \<and> V2_request (upstream w 1) = Inr post
        \<and> 200 \<le> status post \<and> status post < 300
        \<and> verify_loop w listEntryId 0 None = (Inr persisted, t)"
  then show "sync w listEntryId =
          (Inr (Reply 200
                  (JObj [(''ok'', JBool True), (''listEntryId'', JStr listEntryId),
                         (''min'', num_or_null mn), (''max'', num_or_null mx), (''p'', num_or_null p),
                         (''ev'', JNum ev), (''persisted'', num_or_null persisted)])),
           GET (fields_path listEntryId) # POST (ev_path listEntryId) (ev_body ev) # t)"
    using sync_after_write [of w mn mx p ev post listEntryId persisted t]
    by (simp add: success_def)
qed

subsection \<open>The scenarios\<close>

lemma FID_distinct:
  "FID_EV \<noteq> FID_MIN" "FID_EV \<noteq> FID_MAX" "FID_EV \<noteq> FID_P"
  "FID_MIN \<noteq> FID_MAX" "FID_MIN \<noteq> FID_P" "FID_MAX \<noteq> FID_P"
  by (simp_all add: FID_EV_def FID_MIN_def FID_MAX_def FID_P_def)

lemma field_entry_field: "field_entry (field fid v) = Inr (fid, v)"
  by (simp add: field_entry_def field_def get_def opt_get_def)

lemma field_entries_reply: "field_entries (JObj [(''data'', JArr fs)]) = map_entries fs"
  by (simp add: field_entries_def opt_get_def coalesce_def nullish_def)

lemma failing_read: "read_and_compute failing_world = Inr (None, None, None, Fin 0)"
  by (simp add: read_and_compute_def world_defs V2_request_def settle_def V2_validateStatus_def
     field_entries_def coalesce_def opt_get_def nullish_def map_get_def
     computeEV_refines [of _ "Some 0" _ "Some 0" _ "Some 0"] spec_product_zeros)

lemma failing_write:
  "V2_request (upstream failing_world 1) =
     Inl (Error ''Request failed with status code 500'' (Some (500, JStr ''boom'')))"
proof -
  have "upstream failing_world 1 = Replied 500 (JStr ''boom'')"
    by (simp add: world_defs)
  then show ?thesis
    by (simp add: V2_rejects show_rat_numeral digits10.simps digit_char_def)
qed

lemma failing_sync:
  "sync failing_world ''42'' =
     (Inl (Error ''Request failed with status code 500'' (Some (500, JStr ''boom''))),
      [GET ''/lists/300305/list-entries/42/fields'',
       POST ''/lists/300305/list-entries/42/fields/field-5305096''
         (JObj [(''value'', JObj [(''type'', JStr ''number''), (''data'', int_val 0)])])])"
  using failing_write
  by (simp add: sync_def failing_read Let_def fields_path_42 ev_path_42 ev_body_def int_val_def)

lemma failing_token: "\<not> token_missing failing_world"
  by (simp add: token_missing_def world_defs)

lemma failing_try:
  "handler_try failing_world entry_request =
     (Inl (Error ''Request failed with status code 500'' (Some (500, JStr ''boom''))),
      [GET ''/lists/300305/list-entries/42/fields'',
       POST ''/lists/300305/list-entries/42/fields/field-5305096''
         (JObj [(''value'', JObj [(''type'', JStr ''number''), (''data'', int_val 0)])])])"
  by (simp add: handler_try_def failing_token normalize_entry_request failing_sync)

lemma late_read: "read_and_compute late_world = Inr (Some 50000, Some 150000, Some 50, Fin 50000)"
proof -
  have u: "upstream late_world 0 =
      Replied 200 (JObj [(''data'', JArr [field FID_MIN (int_val 50000), field FID_MAX (int_val 150000),
                                       field FID_P (int_val 50)])])"
    by (simp add: late_world_def fields_reply_def)
  have c: "computeEV (JNum (Fin 50000)) (JNum (Fin 150000)) (JNum (Fin 50)) = Inr (Fin 50000)"
    by (simp add: computeEV_refines [of _ "Some 50000" _ "Some 150000" _ "Some 50"] spec_defs
        exact_roundings)
  show ?thesis
    using FID_distinct
    by (simp add: read_and_compute_def u settle_200 field_entries_reply field_entry_field
        map_get_def num_or_null_def c)
qed

lemma never_read: "read_and_compute never_world = Inr (Some 50000, Some 150000, Some 50, Fin 50000)"
proof -
  have "upstream never_world 0 = upstream late_world 0"
    by (simp add: never_world_def)
  then have "read_and_compute never_world = read_and_compute late_world"
    by (simp add: read_and_compute_def)
  then show ?thesis by (simp add: late_read)
qed

lemma late_write: "V2_request (upstream late_world 1) = Inr (Response 200 JNull)"
proof -
  have "upstream late_world 1 = Replied 200 JNull"
    by (simp add: late_world_def)
  then show ?thesis by (simp add: settle_200)
qed

lemma never_write: "V2_request (upstream never_world 1) = Inr (Response 200 JNull)"
proof -
  have "upstream never_world 1 = upstream late_world 1"
    by (simp add: never_world_def)
  then show ?thesis using late_write by simp
qed

lemma late_verify:
  "verify_read late_world 0 = Inr None" "verify_read late_world 1 = Inr (Some 50000)"
proof -
  have "upstream late_world 2 = Replied 200 (JObj [(''data'', JArr [])])"
    by (simp add: late_world_def fields_reply_def)
  then show "verify_read late_world 0 = Inr None"
    by (simp add: verify_read_def settle_200 field_entries_reply map_get_def)
  have "upstream late_world 3 = Replied 200 (JObj [(''data'', JArr [field FID_EV (int_val 50000)])])"
    by (simp add: late_world_def fields_reply_def)
  then show "verify_read late_world 1 = Inr (Some 50000)"
    by (simp add: verify_read_def settle_200 field_entries_reply field_entry_field map_get_def)
qed

lemma never_verify: "verify_read never_world k = Inr None"
proof -
  have "upstream never_world (2 + k) = Replied 200 (JObj [(''data'', JArr [])])"
    by (simp add: never_world_def fields_reply_def)
  then show ?thesis
    by (simp add: verify_read_def settle_200 field_entries_reply map_get_def)
qed

lemma scenario_tokens: "\<not> token_missing late_world" "\<not> token_missing never_world"
  by (simp_all add: token_missing_def late_world_def never_world_def)

lemma verification_scenarios:
  "verify_read late_world 0 = Inr None \<and> verify_read late_world 1 = Inr (Some 50000)
   \<and> handler late_world entry_request =
       (Reply 200
          (JObj [(''ok'', JBool True), (''listEntryId'', JStr ''42''),
                 (''min'', int_val 50000), (''max'', int_val 150000), (''p'', int_val 50),
                 (''ev'', int_val 50000), (''persisted'', int_val 50000)]),
        [GET ''/lists/300305/list-entries/42/fields'',
         POST ''/lists/300305/list-entries/42/fields/field-5305096''
           (JObj [(''value'', JObj [(''type'', JStr ''number''), (''data'', int_val 50000)])]),
         GET ''/lists/300305/list-entries/42/fields'', Sleep 200,
         GET ''/lists/300305/list-entries/42/fields''])
   \<and> verify_read never_world 0 = Inr None \<and> verify_read never_world 1 = Inr None
   \<and> verify_read never_world 2 = Inr None \<and> verify_read never_world 3 = Inr None
   \<and> handler never_world entry_request =
       (Reply 200
          (JObj [(''ok'', JBool True), (''listEntryId'', JStr ''42''),
                 (''min'', int_val 50000), (''max'', int_val 150000), (''p'', int_val 50),
                 (''ev'', int_val 50000), (''persisted'', JNull)]),
        [GET ''/lists/300305/list-entries/42/fields'',
         POST ''/lists/300305/list-entries/42/fields/field-5305096''
           (JObj [(''value'', JObj [(''type'', JStr ''number''), (''data'', int_val 50000)])]),
         GET ''/lists/300305/list-entries/42/fields'', Sleep 200,
         GET ''/lists/300305/list-entries/42/fields'', Sleep 400,
         GET ''/lists/300305/list-entries/42/fields'', Sleep 800,
         GET ''/lists/300305/list-entries/42/fields'', Sleep 1600])"
proof -
  have l0: "\<forall>k<1. verify_read late_world k = Inr None"
    using late_verify(1) by simp
  have lv: "verify_loop late_world ''42'' 0 None =
              (Inr (Some 50000), backoff ''42'' 1 @ [GET (fields_path ''42'')])"
    using verification_behaviour [of late_world "''42''" 1 50000] l0 late_verify(2) by simp
  have ls: "sync late_world ''42'' =
          (Inr (Reply 200
                  (JObj [(''ok'', JBool True), (''listEntryId'', JStr ''42''),
                         (''min'', num_or_null (Some 50000)), (''max'', num_or_null (Some 150000)),
                         (''p'', num_or_null (Some 50)),
                         (''ev'', JNum (Fin 50000)), (''persisted'', num_or_null (Some 50000))])),
           GET (fields_path ''42'') # POST (ev_path ''42'') (ev_body (Fin 50000))
             # backoff ''42'' 1 @ [GET (fields_path ''42'')])"
    using verification_behaviour [of late_world "''42''" 0 0 "Some 50000" "Some 150000" "Some 50" "Fin 50000"
        "Response 200 JNull" "Some 50000" "backoff ''42'' 1 @ [GET (fields_path ''42'')]"]
      late_read late_write lv
    by simp
  have n4: "\<forall>k<4. verify_read never_world k = Inr None"
    by (simp add: never_verify)
  have nv: "verify_loop never_world ''42'' 0 None = (Inr None, backoff ''42'' 4)"
    using verification_behaviour [of never_world "''42''"] n4 by blast
  have ns: "sync never_world ''42'' =
          (Inr (Reply 200
                  (JObj [(''ok'', JBool True), (''listEntryId'', JStr ''42''),
                         (''min'', num_or_null (Some 50000)), (''max'', num_or_null (Some 150000)),
                         (''p'', num_or_null (Some 50)),
                         (''ev'', JNum (Fin 50000)), (''persisted'', num_or_null None)])),
           GET (fields_path ''42'') # POST (ev_path ''42'') (ev_body (Fin 50000)) # backoff ''42'' 4)"
    using verification_behaviour [of never_world "''42''" 0 0 "Some 50000" "Some 150000" "Some 50" "Fin 50000"
        "Response 200 JNull" None "backoff ''42'' 4"]
      never_read never_write nv
    by simp
  show ?thesis
    using late_verify
    by (simp add: never_verify handler_of_sync [OF scenario_tokens(1) ls] handler_of_sync [OF scenario_tokens(2) ns]
        backoff_values fields_path_42 ev_path_42 ev_body_def num_or_null_def int_val_def)
qed

lemma stale_read: "read_and_compute stale_world = Inr (Some 50000, Some 150000, Some 50, Fin 50000)"
proof -
  have "upstream stale_world 0 = upstream late_world 0"
    by (simp add: stale_world_def)
  then have "read_and_compute stale_world = read_and_compute late_world"
    by (simp add: read_and_compute_def)
  then show ?thesis by (simp add: late_read)
qed

lemma stale_write: "V2_request (upstream stale_world 1) = Inr (Response 200 JNull)"
proof -
  have "upstream stale_world 1 = upstream late_world 1"
    by (simp add: stale_world_def)
  then show ?thesis using late_write by simp
qed

lemma stale_verify: "verify_read stale_world k = Inr (Some 0)"
proof -
  have "upstream stale_world (2 + k) = Replied 200 (JObj [(''data'', JArr [field FID_EV JNull])])"
    by (simp add: stale_world_def fields_reply_def)
  then show ?thesis
    by (simp add: verify_read_def settle_200 field_entries_reply field_entry_field map_get_def)
qed

lemma stale_token: "\<not> token_missing stale_world"
  by (simp add: token_missing_def stale_world_def late_world_def)

lemma null_parse_token: "\<not> token_missing null_parse_world"
  by (simp add: token_missing_def null_parse_world_def late_world_def)

lemma null_parse: "JSON_parse null_parse_world ''null'' = Some JNull"
  by (simp add: null_parse_world_def)

lemma normalize_null_member:
  "payload_normalizer null_parse_world (json_request (JObj [(''body'', JStr ''null'')])) =
     Inl (TypeError ''Cannot convert undefined or null to object'')"
  by (simp add: payload_normalizer_def read_outer_object unwrap_def get_def coerceObj_def
      null_parse truthy_def has_keys_def)

lemma normalize_null_text:
  "payload_normalizer null_parse_world (text_request ''null'') =
     Inl (TypeError (''Cannot read properties of null (reading '' @ [CHR 0x27] @ ''body''
                     @ [CHR 0x27] @ '')''))"
  by (simp add: payload_normalizer_def read_outer_def text_request_def nullish_def coerceObj_def
      null_parse unwrap_def get_def)

subsection \<open>The claims about the handler\<close>

text \<open>
  Claim C1, evaluated where the claim and the code part. The remote side answers the write
  with the status 500. The client rejects the call, the branch of the handler that builds
  the \<open>step: "post_ev"\<close> body is not reached, and the \<open>catch\<close> block answers with the
  status 200 and the body \<open>{ok: false, error: {status: 500, data}}\<close>. The write is sent
  once.
\<close>

theorem refused_write_reaches_catch:
  "handler failing_world entry_request =
     (Reply 200
        (JObj [(''ok'', JBool False),
               (''error'', JObj [(''status'', int_val 500), (''data'', JStr ''boom'')])]),
      [GET ''/lists/300305/list-entries/42/fields'',
       POST ''/lists/300305/list-entries/42/fields/field-5305096''
         (JObj [(''value'', JObj [(''type'', JStr ''number''), (''data'', int_val 0)])])])"
  by (simp add: handler_def failing_try caught_def truthy_def)

text \<open>
  Claim C3, as the code has it. The identifier is the string of the first candidate among
  \<open>list_entry_id\<close>, \<open>listEntryId\<close> and \<open>data.list_entry_id\<close> that is neither null
  nor undefined (the operator \<open>??\<close>), and the empty string when there is none. A body
  wrapped as \<open>{type, body: {...}}\<close> normalises to what the inner body alone normalises
  to, when the inner body has a member and no \<open>body\<close> or \<open>data\<close> member of its own;
  both bodies of the specification's example give the identifier \<open>"42"\<close>.
\<close>

theorem listEntryId_resolution:
  "(\<not> nullish payload \<longrightarrow>
      listEntryId_of payload = String_js (first_present (id_candidates payload)))
   \<and> (kvs \<noteq> [] \<and> map_of kvs ''body'' = None \<and> map_of kvs ''data'' = None \<longrightarrow>
        payload_normalizer w (json_request (JObj [(''type'', t), (''body'', JObj kvs)])) =
          payload_normalizer w (json_request (JObj kvs)))
   \<and> payload_normalizer w (json_request
         (JObj [(''type'', JStr ''x''),
                (''body'', JObj [(''list_entry_id'', JStr ''42''),
                                 (''field'', JObj [(''list_id'', int_val 300305)])])])) =
       Inr (JObj [(''list_entry_id'', JStr ''42''), (''field'', JObj [(''list_id'', int_val 300305)])],
            ''42'', Fin 300305)
   \<and> payload_normalizer w (json_request
         (JObj [(''list_entry_id'', JStr ''42''), (''field'', JObj [(''list_id'', int_val 300305)])])) =
       Inr (JObj [(''list_entry_id'', JStr ''42''), (''field'', JObj [(''list_id'', int_val 300305)])],
            ''42'', Fin 300305)"
proof (intro conjI impI)
  assume "\<not> nullish payload"
  then show "listEntryId_of payload = String_js (first_present (id_candidates payload))"
    by (rule listEntryId_first_present)
next
  assume h: "kvs \<noteq> [] \<and> map_of kvs ''body'' = None \<and> map_of kvs ''data'' = None"
  let ?wrapped = "JObj [(''type'', t), (''body'', JObj kvs)]"
  have a: "payload_normalizer w (json_request ?wrapped) =
             bindE (listEntryId_of (JObj kvs)) (\<lambda>listEntryId.
             bindE (eventListId_of (JObj kvs) ?wrapped) (\<lambda>eventListId.
               Inr (JObj kvs, listEntryId, eventListId)))"
    using h by (simp add: payload_normalizer_def read_outer_object unwrap_envelope)
  have b: "payload_normalizer w (json_request (JObj kvs)) =
             bindE (listEntryId_of (JObj kvs)) (\<lambda>listEntryId.
             bindE (eventListId_of (JObj kvs) (JObj kvs)) (\<lambda>eventListId.
               Inr (JObj kvs, listEntryId, eventListId)))"
    using h by (simp add: normalize_plain)
  have c: "eventListId_of (JObj kvs) ?wrapped = eventListId_of (JObj kvs) (JObj kvs)"
    by (simp add: eventListId_of_def list_id_candidate_def opt_get_def coalesce_def nullish_def)
  show "payload_normalizer w (json_request ?wrapped) = payload_normalizer w (json_request (JObj kvs))"
    unfolding a b c by (rule refl)
next
  show "payload_normalizer w (json_request
         (JObj [(''type'', JStr ''x''),
                (''body'', JObj [(''list_entry_id'', JStr ''42''),
                                 (''field'', JObj [(''list_id'', int_val 300305)])])])) =
       Inr (JObj [(''list_entry_id'', JStr ''42''), (''field'', JObj [(''list_id'', int_val 300305)])],
            ''42'', Fin 300305)"
    by (simp add: payload_normalizer_def read_outer_object unwrap_envelope listEntryId_of_def
        get_def nullish_def coalesce_def eventListId_of_def list_id_candidate_def opt_get_def
        int_val_def Number_js_def)
  show "payload_normalizer w (json_request
         (JObj [(''list_entry_id'', JStr ''42''), (''field'', JObj [(''list_id'', int_val 300305)])])) =
       Inr (JObj [(''list_entry_id'', JStr ''42''), (''field'', JObj [(''list_id'', int_val 300305)])],
            ''42'', Fin 300305)"
    by (simp add: normalize_plain listEntryId_of_def
        get_def nullish_def coalesce_def eventListId_of_def list_id_candidate_def opt_get_def
        int_val_def Number_js_def)
qed

theorem listEntryId_resolution_witness:
  "\<not> nullish (JObj [(''listEntryId'', int_val 215745884), (''data'', JObj [(''list_entry_id'', JStr ''7'')])])
   \<and> listEntryId_of (JObj [(''listEntryId'', int_val 215745884), (''data'', JObj [(''list_entry_id'', JStr ''7'')])])
       = Inr ''215745884''"
proof -
  let ?p = "JObj [(''listEntryId'', int_val 215745884), (''data'', JObj [(''list_entry_id'', JStr ''7'')])]"
  have n: "\<not> nullish ?p" by (simp add: nullish_def)
  have f: "first_present (id_candidates ?p) = int_val 215745884"
    by (simp add: first_present_def id_candidates_def opt_get_def nullish_def int_val_def)
  have s: "String_js (int_val 215745884) = Inr ''215745884''"
    by (simp add: int_val_def num_to_string_def show_rat_numeral digits10.simps digit_char_def)
  show ?thesis
    using listEntryId_resolution [of ?p "[]"] n f s by simp
qed

text \<open>
  An empty string is a candidate like any other: with \<open>list_entry_id: ""\<close> and
  \<open>listEntryId: "42"\<close> the code resolves the empty identifier, where the first non-empty
  candidate is \<open>"42"\<close>.
\<close>

theorem first_nonempty_counterexample:
  "listEntryId_of (JObj [(''list_entry_id'', JStr []), (''listEntryId'', JStr ''42'')]) = Inr []
   \<and> String_js (first_nonempty
         (id_candidates (JObj [(''list_entry_id'', JStr []), (''listEntryId'', JStr ''42'')]))) = Inr ''42''"
  by (simp add: listEntryId_of_def get_def nullish_def coalesce_def first_nonempty_def
      id_candidates_def opt_get_def)

text \<open>
  Claim C7. Every invocation answers with a JSON body, and with the status 200 unless the
  credential is missing, when it answers 500. An exception that leaves the \<open>try\<close> block
  (a rejected outbound call among them) is caught and answered with the status 200 and the
  body \<open>{ok: false, error: {status, data}}\<close>; a first read without any reply gives the
  status 500 and the error's message inside that body.
\<close>

theorem handler_always_200_but_missing_token:
  "code (fst (handler w rq)) = (if token_missing w then 500 else 200)
   \<and> (token_missing w \<longrightarrow>
        handler w rq =
          (Reply 500 (JObj [(''ok'', JBool False), (''error'', JStr ''Missing AFFINITY_V2_TOKEN'')]), []))
   \<and> (\<forall>e t. handler_try w rq = (Inl e, t) \<longrightarrow>
        \<not> token_missing w
        \<and> (\<exists>st d. handler w rq =
              (Reply 200 (JObj [(''ok'', JBool False),
                                (''error'', JObj [(''status'', int_val st), (''data'', d)])]), t)))
   \<and> (\<not> token_missing w \<and> payload_normalizer w rq = Inr (payload, listEntryId, Fin (of_int LIST_ID))
        \<and> listEntryId \<noteq> [] \<and> upstream w 0 = NoReply msg \<longrightarrow>
        handler w rq =
          (Reply 200 (JObj [(''ok'', JBool False),
                            (''error'', JObj [(''status'', int_val 500), (''data'', JStr msg)])]),
           [GET (fields_path listEntryId)]))"
proof (intro conjI allI impI)
  show "code (fst (handler w rq)) = (if token_missing w then 500 else 200)"
  proof (cases "handler_try w rq")
    case (Pair res t)
    show ?thesis
    proof (cases res)
      case (Inl e)
      with Pair have "\<not> token_missing w"
        by (auto simp: handler_try_def)
      with Pair Inl show ?thesis
        by (simp add: handler_def)
    next
      case (Inr r)
      with Pair handler_try_code [of w rq r t] show ?thesis
        by (simp add: handler_def)
    qed
  qed
next
  assume "token_missing w"
  then show "handler w rq =
          (Reply 500 (JObj [(''ok'', JBool False), (''error'', JStr ''Missing AFFINITY_V2_TOKEN'')]), [])"
    by (simp add: handler_def handler_try_def)
next
  fix e t
  assume h: "handler_try w rq = (Inl e, t)"
  then show "\<not> token_missing w"
    by (auto simp: handler_try_def)
  from h caught_shape [of e]
  show "\<exists>st d. handler w rq =
              (Reply 200 (JObj [(''ok'', JBool False),
                                (''error'', JObj [(''status'', int_val st), (''data'', d)])]), t)"
    by (auto simp: handler_def)
next
  assume h: "\<not> token_missing w \<and> payload_normalizer w rq = Inr (payload, listEntryId, Fin (of_int LIST_ID))
        \<and> listEntryId \<noteq> [] \<and> upstream w 0 = NoReply msg"
  then have "handler_try w rq = (Inl (Error msg None), [GET (fields_path listEntryId)])"
    by (simp add: handler_try_def sync_first_read_fails)
  then show "handler w rq =
          (Reply 200 (JObj [(''ok'', JBool False),
                            (''error'', JObj [(''status'', int_val 500), (''data'', JStr msg)])]),
           [GET (fields_path listEntryId)])"
    by (simp add: handler_def caught_no_response)
qed

theorem handler_always_200_but_missing_token_witness:
  "handler_try failing_world entry_request =
     (Inl (Error ''Request failed with status code 500'' (Some (500, JStr ''boom''))),
      [GET ''/lists/300305/list-entries/42/fields'',
       POST ''/lists/300305/list-entries/42/fields/field-5305096''
         (JObj [(''value'', JObj [(''type'', JStr ''number''), (''data'', int_val 0)])])])
   \<and> \<not> token_missing failing_world
   \<and> code (fst (handler failing_world entry_request)) = 200
   \<and> token_missing no_token_world
   \<and> handler no_token_world entry_request =
        (Reply 500 (JObj [(''ok'', JBool False), (''error'', JStr ''Missing AFFINITY_V2_TOKEN'')]), [])"
proof -
  have n: "token_missing no_token_world"
    by (simp add: token_missing_def world_defs)
  show ?thesis
    using handler_always_200_but_missing_token [of failing_world entry_request]
      handler_always_200_but_missing_token [of no_token_world entry_request]
      failing_try failing_token n
    by simp
qed

text \<open>
  Claim C8, evaluated where the claim and the code part. Neither body carries an
  identifier: the JSON body \<open>{"body": "null"}\<close> and the text body \<open>null\<close>.
  \<open>coerceObj\<close> returns what \<open>JSON.parse\<close> gives for a string, here null, and not an
  object; \<open>Object.keys(null)\<close>, or the member access \<open>outer.body\<close> on null, throws, and
  the \<open>catch\<close> block answers with the status 200 and the body
  \<open>{ok: false, error: {status: 500, data}}\<close> in place of the skip.
\<close>

theorem null_body_is_not_skipped:
  "handler null_parse_world (json_request (JObj [(''body'', JStr ''null'')])) =
     (Reply 200
        (JObj [(''ok'', JBool False),
               (''error'', JObj [(''status'', int_val 500),
                                 (''data'', JStr ''Cannot convert undefined or null to object'')])]),
      [])
   \<and> handler null_parse_world (text_request ''null'') =
     (Reply 200
        (JObj [(''ok'', JBool False),
               (''error'', JObj [(''status'', int_val 500),
                                 (''data'', JStr (''Cannot read properties of null (reading ''
                                                  @ [CHR 0x27] @ ''body'' @ [CHR 0x27] @ '')''))])]),
      [])"
  by (simp add: handler_def handler_try_def null_parse_token normalize_null_member
      normalize_null_text TypeError_def caught_def)

text \<open>
  Claim C9, evaluated where the claim and the code part. After the write, the verifying
  read shows the field with no value yet, \<open>{id, value: {data: null}}\<close>. \<open>safeNum\<close>
  converts null with \<open>Number\<close>, which gives 0 and not null, so the first read counts as a
  read of a value: the loop stops at once, without a delay or a second read, and the
  success body reports \<open>persisted: 0\<close>.
\<close>

theorem null_value_stops_verification:
  "verify_read stale_world 0 = Inr (Some 0)
   \<and> handler stale_world entry_request =
       (Reply 200
          (JObj [(''ok'', JBool True), (''listEntryId'', JStr ''42''),
                 (''min'', int_val 50000), (''max'', int_val 150000), (''p'', int_val 50),
                 (''ev'', int_val 50000), (''persisted'', int_val 0)]),
        [GET ''/lists/300305/list-entries/42/fields'',
         POST ''/lists/300305/list-entries/42/fields/field-5305096''
           (JObj [(''value'', JObj [(''type'', JStr ''number''), (''data'', int_val 50000)])]),
         GET ''/lists/300305/list-entries/42/fields''])"
proof -
  have v: "verify_loop stale_world ''42'' 0 None = (Inr (Some 0), [GET (fields_path ''42'')])"
    by (simp add: verify_loop_step stale_verify)
  have "sync stale_world ''42'' =
          (Inr (Reply 200 (success ''42'' (Some 50000) (Some 150000) (Some 50) (Fin 50000) (Some 0))),
           [GET (fields_path ''42''), POST (ev_path ''42'') (ev_body (Fin 50000)),
            GET (fields_path ''42'')])"
    using sync_after_write [OF stale_read stale_write _ _ v] by simp
  then have "handler stale_world entry_request =
          (Reply 200 (success ''42'' (Some 50000) (Some 150000) (Some 50) (Fin 50000) (Some 0)),
           [GET (fields_path ''42''), POST (ev_path ''42'') (ev_body (Fin 50000)),
            GET (fields_path ''42'')])"
    using stale_token by (rule handler_of_sync [rotated])
  then show ?thesis
    by (simp add: stale_verify success_def fields_path_42 ev_path_42 ev_body_def num_or_null_def
        int_val_def)
qed



end
